theory Spec2Isabelle
  imports Main
begin

section \<open>The appsec acquisition module and the bulk deletion of decisions\<close>

text \<open>
  A shallow embedding of \<^verbatim>\<open>pkg/acquisition/modules/appsec/appsec.go\<close> (the
  authentication cache, the configuration defaults, the upstream probe and the HTTP
  handler) and of \<^verbatim>\<open>DeleteDecisions\<close> of the database package.

  Conventions. A Go \<^verbatim>\<open>string\<close> is a \<open>string\<close>; the empty string is \<open>[]\<close>, so the
  test \<^verbatim>\<open>s == ""\<close> is written \<open>s = []\<close>. A Go \<^verbatim>\<open>int\<close> is an \<open>int\<close>. An instant
  (\<^verbatim>\<open>time.Time\<close>) and a \<^verbatim>\<open>time.Duration\<close> are integers counting nanoseconds on one
  time line: \<^verbatim>\<open>t.Add(d)\<close> is \<open>t + d\<close> and \<^verbatim>\<open>t.After(u)\<close> is \<open>u < t\<close>. A Go
  \<^verbatim>\<open>error\<close> is a value of the type \<open>error\<close>; the result \<^verbatim>\<open>nil\<close> is \<open>None\<close>.
  Log statements have no effect on any value below and are left out.
\<close>

subsection \<open>Errors\<close>

text \<open>\<^verbatim>\<open>errors.New(msg)\<close> is \<open>Err msg\<close>; \<^verbatim>\<open>fmt.Errorf("msg: %w", err)\<close> is \<open>Wrap msg err\<close>.\<close>

datatype error = Err string | Wrap string error

subsection \<open>AuthCache\<close>

type_synonym Time = int
type_synonym Duration = int

text \<open>The zero value of \<^verbatim>\<open>time.Time\<close>, which a Go map returns for a missing key.\<close>

definition zero_Time :: Time where
  "zero_Time = 0"

text \<open>
  \<^verbatim>\<open>type AuthCache struct { APIKeys map[string]time.Time; mu sync.RWMutex }\<close>. The
  mutex makes each operation atomic; in the sequential model it is not a field.
\<close>

record AuthCache =
  APIKeys :: "string \<rightharpoonup> Time"

definition NewAuthCache :: AuthCache where
  "NewAuthCache = \<lparr>APIKeys = Map.empty\<rparr>"

definition AuthCache_Set :: "AuthCache \<Rightarrow> string \<Rightarrow> Time \<Rightarrow> AuthCache" where
  "AuthCache_Set ac apiKey expiration = ac\<lparr>APIKeys := (APIKeys ac)(apiKey \<mapsto> expiration)\<rparr>"

definition AuthCache_Get :: "AuthCache \<Rightarrow> string \<Rightarrow> Time \<times> bool" where
  "AuthCache_Get ac apiKey =
     (case APIKeys ac apiKey of
        None \<Rightarrow> (zero_Time, False)
      | Some expiration \<Rightarrow> (expiration, True))"

text \<open>A sequence of calls of \<^verbatim>\<open>Set\<close>, first to last.\<close>

fun AuthCache_Set_all :: "AuthCache \<Rightarrow> (string \<times> Time) list \<Rightarrow> AuthCache" where
  "AuthCache_Set_all ac [] = ac"
| "AuthCache_Set_all ac ((k, e) # calls) = AuthCache_Set_all (AuthCache_Set ac k e) calls"

subsection \<open>Configuration\<close>

text \<open>
  \<^verbatim>\<open>configuration.DataSourceCommonCfg\<close> is embedded inline in the configuration
  structure; its declaration is outside the files at hand, and the fields the module
  reads or writes are \<^verbatim>\<open>Mode\<close>, \<^verbatim>\<open>Name\<close> and \<^verbatim>\<open>UniqueId\<close>.
  \<^verbatim>\<open>AuthCacheDuration\<close> is a pointer: \<open>None\<close> is \<^verbatim>\<open>nil\<close>.
\<close>

record DataSourceCommonCfg =
  Mode :: string
  Name :: string
  UniqueId :: string

record AppsecSourceConfig = DataSourceCommonCfg +
  ListenAddr :: string
  ListenSocket :: string
  CertFilePath :: string
  KeyFilePath :: string
  Path :: string
  Routines :: int
  AppsecConfig :: string
  AppsecConfigPath :: string
  AuthCacheDuration :: "Duration option"

text \<open>The fields of \<^verbatim>\<open>AppsecSource\<close> that the modelled functions use.\<close>

record AppsecSource =
  config :: AppsecSourceConfig
  lapiURL :: string
  AuthCache :: AuthCache

text \<open>
  What \<^verbatim>\<open>UnmarshalConfig\<close> takes from outside the module: the strict YAML decoder
  (it fills the structure it is given and returns an error or \<^verbatim>\<open>nil\<close>), the constant
  \<^verbatim>\<open>configuration.TAIL_MODE\<close> and the URL of the local API in the global
  configuration (\<^verbatim>\<open>csconfig.GetConfig().API.Client.Credentials.URL\<close>).
\<close>

record config_deps =
  yaml_UnmarshalStrict :: "string \<Rightarrow> AppsecSourceConfig \<Rightarrow> error option \<times> AppsecSourceConfig"
  TAIL_MODE :: string
  Credentials_URL :: string

definition default_ListenAddr :: "AppsecSourceConfig \<Rightarrow> AppsecSourceConfig" where
  "default_ListenAddr c =
     (if ListenAddr c = [] \<and> ListenSocket c = [] then c\<lparr>ListenAddr := ''127.0.0.1:7422''\<rparr>
      else c)"

definition default_Path :: "AppsecSourceConfig \<Rightarrow> AppsecSourceConfig" where
  "default_Path c = (if Path c = [] then c\<lparr>Path := ''/''\<rparr> else c)"

text \<open>
  \<^verbatim>\<open>if w.config.Path[0] != '/'\<close>: the index would panic on an empty path; the
  statement before it has made the path non-empty, so the \<open>[]\<close> case is not reached
  from \<open>UnmarshalConfig\<close>.
\<close>

definition leading_slash :: "AppsecSourceConfig \<Rightarrow> AppsecSourceConfig" where
  "leading_slash c =
     (case Path c of
        [] \<Rightarrow> c
      | ch # _ \<Rightarrow> if ch \<noteq> CHR ''/'' then c\<lparr>Path := ''/'' @ Path c\<rparr> else c)"

definition default_Mode :: "string \<Rightarrow> AppsecSourceConfig \<Rightarrow> AppsecSourceConfig" where
  "default_Mode tail c = (if Mode c = [] then c\<lparr>Mode := tail\<rparr> else c)"

definition default_Routines :: "AppsecSourceConfig \<Rightarrow> AppsecSourceConfig" where
  "default_Routines c = (if Routines c = 0 then c\<lparr>Routines := 1\<rparr> else c)"

text \<open>
  The two naming branches, in the order of the source; the second reads the name the
  first may have written only through the fields \<^verbatim>\<open>ListenSocket\<close>, \<^verbatim>\<open>ListenAddr\<close>
  and \<^verbatim>\<open>Path\<close>, which the first leaves alone.
\<close>

definition default_Name :: "AppsecSourceConfig \<Rightarrow> AppsecSourceConfig" where
  "default_Name c =
     (if Name c = [] then
        (let c1 = (if ListenSocket c \<noteq> [] \<and> ListenAddr c = []
                   then c\<lparr>Name := ListenSocket c\<rparr> else c)
         in if ListenSocket c1 = [] then c1\<lparr>Name := ListenAddr c1 @ Path c1\<rparr> else c1)
      else c)"

text \<open>
  \<^verbatim>\<open>UnmarshalConfig\<close> returns the error and, as the method mutates its receiver, the
  receiver after the call: on an error the fields written so far stay written.
\<close>

definition UnmarshalConfig ::
  "config_deps \<Rightarrow> string \<Rightarrow> AppsecSource \<Rightarrow> error option \<times> AppsecSource" where
  "UnmarshalConfig deps yamlConfig w =
     (case yaml_UnmarshalStrict deps yamlConfig (config w) of
        (Some err, c) \<Rightarrow> (Some (Wrap ''cannot parse appsec configuration'' err), w\<lparr>config := c\<rparr>)
      | (None, c) \<Rightarrow>
          (let c1 = default_ListenAddr c;
               c2 = default_Path c1;
               c3 = leading_slash c2;
               c4 = default_Mode (TAIL_MODE deps) c3;
               c5 = default_Routines c4
           in if AppsecConfig c5 = [] \<and> AppsecConfigPath c5 = []
              then (Some (Err ''appsec_config or appsec_config_path must be set''),
                    w\<lparr>config := c5\<rparr>)
              else (None,
                    w\<lparr>config := default_Name c5,
                      lapiURL := Credentials_URL deps @ ''v1/decisions/stream'',
                      AuthCache := NewAuthCache\<rparr>)))"

subsection \<open>HTTP requests and the upstream probe\<close>

text \<open>
  \<^verbatim>\<open>http.Request\<close>, for the request the handler receives and for the one the probe
  sends. \<^verbatim>\<open>http.Header\<close> is a map from (canonical) header names to lists of values:
  \<^verbatim>\<open>Get\<close> returns the first value of a name, or the empty string; \<^verbatim>\<open>Add\<close>
  appends a value.
\<close>

record Request =
  Method :: string
  URL :: string
  Header :: "string \<rightharpoonup> string list"
  RemoteAddr :: string

record Response =
  StatusCode :: int

definition Header_Get :: "(string \<rightharpoonup> string list) \<Rightarrow> string \<Rightarrow> string" where
  "Header_Get h key = (case h key of None \<Rightarrow> [] | Some [] \<Rightarrow> [] | Some (v # _) \<Rightarrow> v)"

definition Header_Add ::
  "(string \<rightharpoonup> string list) \<Rightarrow> string \<Rightarrow> string \<Rightarrow> (string \<rightharpoonup> string list)" where
  "Header_Add h key v = h(key \<mapsto> (case h key of None \<Rightarrow> [v] | Some vs \<Rightarrow> vs @ [v]))"

definition MethodHead :: string where
  "MethodHead = ''HEAD''"

definition StatusOK :: int where
  "StatusOK = 200"

definition StatusUnauthorized :: int where
  "StatusUnauthorized = 401"

definition StatusInternalServerError :: int where
  "StatusInternalServerError = 500"

definition Millisecond :: Duration where
  "Millisecond = 1000000"

text \<open>
  The records of the package \<^verbatim>\<open>appsec\<close> that the handler reads: the parsed request
  (the fields the handler touches) and the verdict a runner sends back.
\<close>

record ParsedRequest =
  UUID :: string
  ClientIP :: string
  RemoteAddrNormalized :: string
  AppsecEngine :: string

record AppsecTempResponse =
  InBandInterrupt :: bool

record BodyResponse =
  Action :: string

text \<open>
  What the handler and the probe take from outside the module. \<open>NewRequest_error\<close> is
  the error of \<^verbatim>\<open>http.NewRequest\<close> for a method and a URL (a method that is not a
  token, a URL that does not parse), \<open>None\<close> when there is none; \<^verbatim>\<open>client.Do\<close>
  of a client with the given timeout returns the response, or an error for a transport
  failure or a timeout. \<open>ResponseChannel_recv\<close> is the value the handler receives on
  the reply channel of the request it has handed to a runner.
\<close>

record handler_deps =
  NewRequest_error :: "string \<Rightarrow> string \<Rightarrow> error option"
  client_Do :: "Duration \<Rightarrow> Request \<Rightarrow> error + Response"
  APIKeyHeaderName :: string
  IPHeaderName :: string
  NewParsedRequestFromRequest :: "Request \<Rightarrow> error + ParsedRequest"
  ResponseChannel_recv :: "ParsedRequest \<Rightarrow> AppsecTempResponse"
  GenerateResponse :: "AppsecTempResponse \<Rightarrow> int \<times> BodyResponse"
  json_Marshal :: "BodyResponse \<Rightarrow> error + string"

text \<open>
  \<^verbatim>\<open>http.NewRequest(method, url, nil)\<close>: the error, or a request with the method, the
  URL and an empty header.
\<close>

definition http_NewRequest :: "handler_deps \<Rightarrow> string \<Rightarrow> string \<Rightarrow> error + Request" where
  "http_NewRequest deps method url =
     (case NewRequest_error deps method url of
        Some err \<Rightarrow> Inl err
      | None \<Rightarrow> Inr \<lparr>Method = method, URL = url, Header = Map.empty, RemoteAddr = []\<rparr>)"

definition IsAuth :: "handler_deps \<Rightarrow> AppsecSource \<Rightarrow> string \<Rightarrow> bool" where
  "IsAuth deps w apiKey =
     (case http_NewRequest deps MethodHead (lapiURL w) of
        Inl err \<Rightarrow> False
      | Inr req \<Rightarrow>
          (case client_Do deps (200 * Millisecond)
                  (req\<lparr>Header := Header_Add (Header req) ''X-Api-Key'' apiKey\<rparr>) of
             Inl err \<Rightarrow> False
           | Inr resp \<Rightarrow> StatusCode resp = StatusOK))"

subsection \<open>The handler\<close>

text \<open>
  The handler acts on the source (its cache), on the two global counters, on the clock,
  on the work channel and on the response writer. The state holds the source, the
  counters and the clock; \<open>trace\<close> lists, in order, the accesses to the cache, the
  calls of the probe, the increments of the counters, the requests sent on the work
  channel and the calls of the response writer. The clock is a sequence of readings:
  each \<^verbatim>\<open>time.Now()\<close> takes the next one. A counter vector maps the labels
  (\<^verbatim>\<open>source\<close>, \<^verbatim>\<open>appsec_engine\<close>) to a count.
\<close>

datatype event =
    CacheGet string
  | CacheSet string Time
  | IsAuthCall string
  | WriteHeader int
  | Write string
  | ReqCounterInc "string \<times> string"
  | BlockCounterInc "string \<times> string"
  | InChanSend ParsedRequest

record world =
  source :: AppsecSource
  clock :: "nat \<Rightarrow> Time"
  ticks :: nat
  AppsecReqCounter :: "string \<times> string \<Rightarrow> nat"
  AppsecBlockCounter :: "string \<times> string \<Rightarrow> nat"
  trace :: "event list"

datatype outcome = Returned | Panicked

definition emit :: "event \<Rightarrow> world \<Rightarrow> world" where
  "emit e s = s\<lparr>trace := trace s @ [e]\<rparr>"

definition time_Now :: "world \<Rightarrow> Time \<times> world" where
  "time_Now s = (clock s (ticks s), s\<lparr>ticks := Suc (ticks s)\<rparr>)"

definition cache_Get :: "world \<Rightarrow> string \<Rightarrow> (Time \<times> bool) \<times> world" where
  "cache_Get s apiKey = (AuthCache_Get (AuthCache (source s)) apiKey, emit (CacheGet apiKey) s)"

definition cache_Set :: "world \<Rightarrow> string \<Rightarrow> Time \<Rightarrow> world" where
  "cache_Set s apiKey expiration =
     emit (CacheSet apiKey expiration)
       (s\<lparr>source := (source s)\<lparr>AuthCache := AuthCache_Set (AuthCache (source s)) apiKey expiration\<rparr>\<rparr>)"

definition Inc_ReqCounter :: "string \<times> string \<Rightarrow> world \<Rightarrow> world" where
  "Inc_ReqCounter labels s =
     emit (ReqCounterInc labels)
       (s\<lparr>AppsecReqCounter := (AppsecReqCounter s)(labels := Suc (AppsecReqCounter s labels))\<rparr>)"

definition Inc_BlockCounter :: "string \<times> string \<Rightarrow> world \<Rightarrow> world" where
  "Inc_BlockCounter labels s =
     emit (BlockCounterInc labels)
       (s\<lparr>AppsecBlockCounter :=
            (AppsecBlockCounter s)(labels := Suc (AppsecBlockCounter s labels))\<rparr>)"

text \<open>
  The second half of \<^verbatim>\<open>appsecHandler\<close>, from \<^verbatim>\<open>// parse the request only once\<close>
  to the end: parse, stamp the engine name, count, hand the request to a runner, wait
  for the verdict, count a block, write the response. A handler that waits for ever on
  a channel is outside this sequential model.
\<close>

definition appsecHandler_process :: "handler_deps \<Rightarrow> world \<Rightarrow> Request \<Rightarrow> outcome \<times> world" where
  "appsecHandler_process deps s r =
     (case NewParsedRequestFromRequest deps r of
        Inl err \<Rightarrow> (Returned, emit (WriteHeader StatusInternalServerError) s)
      | Inr parsed \<Rightarrow>
          (let parsedRequest = parsed\<lparr>AppsecEngine := Name (config (source s))\<rparr>;
               labels = (RemoteAddrNormalized parsedRequest, AppsecEngine parsedRequest);
               s1 = Inc_ReqCounter labels s;
               s2 = emit (InChanSend parsedRequest) s1;
               response = ResponseChannel_recv deps parsedRequest;
               s3 = (if InBandInterrupt response then Inc_BlockCounter labels s2 else s2);
               (statusCode, appsecResponse) = GenerateResponse deps response;
               s4 = emit (WriteHeader statusCode) s3
           in case json_Marshal deps appsecResponse of
                Inl err \<Rightarrow> (Returned, emit (WriteHeader StatusInternalServerError) s4)
              | Inr body \<Rightarrow> (Returned, emit (Write body) s4)))"

text \<open>
  The condition \<^verbatim>\<open>!exists || time.Now().After(expiration)\<close>: the clock is read only
  when the key is in the cache.
\<close>

definition recheck_needed :: "world \<Rightarrow> Time \<times> bool \<Rightarrow> bool \<times> world" where
  "recheck_needed s got =
     (case got of (expiration, exists) \<Rightarrow>
        if \<not> exists then (True, s)
        else (case time_Now s of (now, s') \<Rightarrow> (expiration < now, s')))"

text \<open>
  The first half of \<^verbatim>\<open>appsecHandler\<close>, up to the update of the cache. The result
  \<open>Some Returned\<close> is a \<^verbatim>\<open>return\<close> of the handler and \<open>None\<close> is control reaching
  the second half. Dereferencing a \<^verbatim>\<open>nil\<close> \<^verbatim>\<open>AuthCacheDuration\<close> panics before
  \<^verbatim>\<open>Set\<close> is called.
\<close>

definition appsecHandler_auth ::
  "handler_deps \<Rightarrow> world \<Rightarrow> Request \<Rightarrow> outcome option \<times> world" where
  "appsecHandler_auth deps s r =
     (let apiKey = Header_Get (Header r) (APIKeyHeaderName deps) in
      if apiKey = [] then (Some Returned, emit (WriteHeader StatusUnauthorized) s)
      else
        (case cache_Get s apiKey of (got, s1) \<Rightarrow>
          (case recheck_needed s1 got of (recheck, s2) \<Rightarrow>
             if recheck then
               (let s3 = emit (IsAuthCall apiKey) s2 in
                if \<not> IsAuth deps (source s3) apiKey
                then (Some Returned, emit (WriteHeader StatusUnauthorized) s3)
                else
                  (case time_Now s3 of (now, s4) \<Rightarrow>
                     (case AuthCacheDuration (config (source s4)) of
                        None \<Rightarrow> (Some Panicked, s4)
                      | Some d \<Rightarrow> (None, cache_Set s4 apiKey (now + d)))))
             else (None, s2))))"

definition appsecHandler :: "handler_deps \<Rightarrow> world \<Rightarrow> Request \<Rightarrow> outcome \<times> world" where
  "appsecHandler deps s r =
     (case appsecHandler_auth deps s r of
        (Some out, s') \<Rightarrow> (out, s')
      | (None, s') \<Rightarrow> appsecHandler_process deps s' r)"

text \<open>
  Requests handled one after the other. A panic of the handler is recovered by the HTTP
  server, which goes on serving.
\<close>

fun serve :: "handler_deps \<Rightarrow> world \<Rightarrow> Request list \<Rightarrow> world" where
  "serve deps s [] = s"
| "serve deps s (r # rs) = serve deps (snd (appsecHandler deps s r)) rs"

text \<open>
  The state in which the probe is called for the key \<open>K\<close>: the cache has been read,
  and the clock too when the key was in the cache.
\<close>

definition before_probe :: "world \<Rightarrow> string \<Rightarrow> world" where
  "before_probe s K =
     (case APIKeys (AuthCache (source s)) K of
        None \<Rightarrow> emit (CacheGet K) s
      | Some E \<Rightarrow> (emit (CacheGet K) s)\<lparr>ticks := Suc (ticks s)\<rparr>)"

text \<open>The keys the probe was called with, in order, and the requests handed to runners.\<close>

definition probe_calls :: "world \<Rightarrow> string list" where
  "probe_calls s = concat (map (\<lambda>e. case e of IsAuthCall k \<Rightarrow> [k] | _ \<Rightarrow> []) (trace s))"

definition enqueued :: "world \<Rightarrow> ParsedRequest list" where
  "enqueued s = concat (map (\<lambda>e. case e of InChanSend p \<Rightarrow> [p] | _ \<Rightarrow> []) (trace s))"

text \<open>The increments of the two counters and the hand-overs to runners, in order.\<close>

definition is_metric_or_send :: "event \<Rightarrow> bool" where
  "is_metric_or_send e =
     (case e of ReqCounterInc _ \<Rightarrow> True | BlockCounterInc _ \<Rightarrow> True | InChanSend _ \<Rightarrow> True
      | _ \<Rightarrow> False)"

definition metric_trace :: "world \<Rightarrow> event list" where
  "metric_trace s = filter is_metric_or_send (trace s)"

subsection \<open>Bulk deletion of decisions\<close>

text \<open>
  \<^verbatim>\<open>ent.Decision\<close> with the field the function reads. The database is a state of any
  type \<open>'db\<close>; \<open>exec db ids\<close> is the statement
  \<^verbatim>\<open>Delete().Where(decision.IDIn(ids...)).Exec(ctx)\<close>: the number of rows or an error,
  and the database after it.
\<close>

record Decision =
  ID :: int

type_synonym 'db Exec = "'db \<Rightarrow> int list \<Rightarrow> (error + int) \<times> 'db"

definition decisionDeleteBulkSize :: nat where
  "decisionDeleteBulkSize = 256"

definition decisionIDs :: "Decision list \<Rightarrow> int list" where
  "decisionIDs decisions = map ID decisions"

text \<open>
  \<^verbatim>\<open>slicetools.Chunks\<close> belongs to the library go-cs-lib: it cuts a slice into
  consecutive chunks of the given size, the last one possibly shorter, and an empty
  slice into no chunk at all. A size of zero, which \<^verbatim>\<open>DeleteDecisions\<close> never
  passes, gives the slice itself as the only chunk.
\<close>

function Chunks :: "'a list \<Rightarrow> nat \<Rightarrow> 'a list list" where
  "Chunks items n =
     (if n = 0 then [items]
      else if items = [] then []
      else take n items # Chunks (drop n items) n)"
  by pat_completeness auto
termination
  by (relation "measure (\<lambda>(items, n). length items)") auto

text \<open>
  The loop \<^verbatim>\<open>for _, chunk := range chunks\<close> with the accumulator \<^verbatim>\<open>tot\<close>;
  \<open>call\<close> is the recursive call, \<open>None\<close> when it does not return.
\<close>

fun range_chunks ::
  "('db \<Rightarrow> Decision list \<Rightarrow> ((int \<times> error option) \<times> 'db) option) \<Rightarrow>
   'db \<Rightarrow> Decision list list \<Rightarrow> int \<Rightarrow> ((int \<times> error option) \<times> 'db) option" where
  "range_chunks call db [] tot = Some ((tot, None), db)"
| "range_chunks call db (chunk # rest) tot =
     (case call db chunk of
        None \<Rightarrow> None
      | Some ((rows, Some err), db') \<Rightarrow> Some ((tot, Some err), db')
      | Some ((rows, None), db') \<Rightarrow> range_chunks call db' rest (tot + rows))"

text \<open>
  \<^verbatim>\<open>DeleteDecisions\<close> calls itself on every chunk, and nothing in the source bounds
  the depth of the calls. The first argument is the depth the stack allows: at depth 0
  the call does not return (\<open>None\<close>). A result is the pair the Go function returns, with
  the database after it.
\<close>

primrec DeleteDecisions ::
  "nat \<Rightarrow> 'db Exec \<Rightarrow> 'db \<Rightarrow> Decision list \<Rightarrow> ((int \<times> error option) \<times> 'db) option" where
  "DeleteDecisions 0 exec db decisions = None"
| "DeleteDecisions (Suc depth) exec db decisions =
     (if length decisions < decisionDeleteBulkSize then
        (case exec db (decisionIDs decisions) of
           (Inl err, db') \<Rightarrow>
             Some ((0, Some (Wrap ''hard delete decisions with provided filter'' err)), db')
         | (Inr rows, db') \<Rightarrow> Some ((rows, None), db'))
      else range_chunks (DeleteDecisions depth exec) db
             (Chunks decisions decisionDeleteBulkSize) 0)"

subsection \<open>Concrete inputs\<close>

text \<open>
  The inputs at which the theorems below are instantiated: the zero value of the
  configuration, a decoder whose result is a given configuration, an upstream that
  answers every probe with a given status, a runner that returns a given verdict.
\<close>

definition zero_config :: AppsecSourceConfig where
  "zero_config =
     \<lparr>Mode = [], Name = [], UniqueId = [], ListenAddr = [], ListenSocket = [],
      CertFilePath = [], KeyFilePath = [], Path = [], Routines = 0, AppsecConfig = [],
      AppsecConfigPath = [], AuthCacheDuration = None\<rparr>"

definition zero_source :: AppsecSource where
  "zero_source = \<lparr>config = zero_config, lapiURL = [], AuthCache = NewAuthCache\<rparr>"

definition decoding_to :: "AppsecSourceConfig \<Rightarrow> config_deps" where
  "decoding_to c =
     \<lparr>yaml_UnmarshalStrict = (\<lambda>yamlConfig c0. (None, c)), TAIL_MODE = ''tail'',
      Credentials_URL = ''http://127.0.0.1:8080/''\<rparr>"

definition listen_addr_given :: AppsecSourceConfig where
  "listen_addr_given =
     zero_config\<lparr>ListenAddr := ''127.0.0.1:7422'', AppsecConfig := ''appsec-default''\<rparr>"

definition both_listeners :: AppsecSourceConfig where
  "both_listeners =
     zero_config\<lparr>ListenAddr := ''0.0.0.0:7422'', ListenSocket := ''/run/appsec.sock'',
       AppsecConfig := ''appsec-default''\<rparr>"

definition example_deps :: "int \<Rightarrow> bool \<Rightarrow> handler_deps" where
  "example_deps status interrupt =
     \<lparr>NewRequest_error = (\<lambda>m u. None),
      client_Do = (\<lambda>timeout req. Inr \<lparr>StatusCode = status\<rparr>),
      APIKeyHeaderName = ''X-Crowdsec-Appsec-Api-Key'',
      IPHeaderName = ''X-Crowdsec-Appsec-Ip'',
      NewParsedRequestFromRequest =
        (\<lambda>r. Inr \<lparr>UUID = ''u1'', ClientIP = ''192.0.2.7'',
                   RemoteAddrNormalized = RemoteAddr r, AppsecEngine = []\<rparr>),
      ResponseChannel_recv = (\<lambda>p. \<lparr>InBandInterrupt = interrupt\<rparr>),
      GenerateResponse =
        (\<lambda>resp. if InBandInterrupt resp then (403, \<lparr>Action = ''deny''\<rparr>)
                 else (200, \<lparr>Action = ''allow''\<rparr>)),
      json_Marshal = (\<lambda>b. Inr (Action b))\<rparr>"

text \<open>
  An upstream that answers 200 to a HEAD request for
  \<^verbatim>\<open>http://127.0.0.1:8080/v1/decisions/stream\<close> whose header \<^verbatim>\<open>X-Api-Key\<close> is the
  given key and 403 to any other request, and an upstream that cannot be reached.
\<close>

definition lapi_accepting :: "string \<Rightarrow> handler_deps" where
  "lapi_accepting key =
     (example_deps 403 False)
       \<lparr>client_Do :=
          (\<lambda>timeout req.
             if Method req = ''HEAD''
                \<and> URL req = ''http://127.0.0.1:8080/v1/decisions/stream''
                \<and> Header_Get (Header req) ''X-Api-Key'' = key
             then Inr \<lparr>StatusCode = 200\<rparr> else Inr \<lparr>StatusCode = 403\<rparr>)\<rparr>"

definition lapi_unreachable :: handler_deps where
  "lapi_unreachable =
     (example_deps 200 False)
       \<lparr>client_Do := (\<lambda>timeout req. Inl (Err ''context deadline exceeded''))\<rparr>"

definition example_world :: "string \<Rightarrow> (string \<rightharpoonup> Time) \<Rightarrow> world" where
  "example_world name keys =
     \<lparr>source =
        \<lparr>config = zero_config\<lparr>Name := name, AuthCacheDuration := Some 60\<rparr>,
         lapiURL = ''http://127.0.0.1:8080/v1/decisions/stream'',
         AuthCache = \<lparr>APIKeys = keys\<rparr>\<rparr>,
      clock = (\<lambda>n. 100 + int n),
      ticks = 0,
      AppsecReqCounter = (\<lambda>labels. 0),
      AppsecBlockCounter = (\<lambda>labels. 0),
      trace = []\<rparr>"

definition request_with :: "(string \<rightharpoonup> string list) \<Rightarrow> Request" where
  "request_with h = \<lparr>Method = ''GET'', URL = ''/'', Header = h, RemoteAddr = ''10.0.0.1''\<rparr>"

definition request_k1 :: Request where
  "request_k1 = request_with [''X-Crowdsec-Appsec-Api-Key'' \<mapsto> [''k1'']]"

definition parsed_k1 :: ParsedRequest where
  "parsed_k1 =
     \<lparr>UUID = ''u1'', ClientIP = ''192.0.2.7'', RemoteAddrNormalized = ''10.0.0.1'',
      AppsecEngine = []\<rparr>"

section \<open>AuthCache\<close>

lemma AuthCache_Get_Set:
  "AuthCache_Get (AuthCache_Set ac k e) k' = (if k' = k then (e, True) else AuthCache_Get ac k')"
  by (simp add: AuthCache_Get_def AuthCache_Set_def)

lemma AuthCache_Get_Set_all_other:
  "K \<notin> fst ` set calls \<Longrightarrow> AuthCache_Get (AuthCache_Set_all ac calls) K = AuthCache_Get ac K"
proof (induction calls arbitrary: ac)
  case Nil
  show ?case by simp
next
  case (Cons call calls)
  obtain k e where call: "call = (k, e)" by (cases call)
  from Cons.prems call have "K \<noteq> k" and "K \<notin> fst ` set calls" by auto
  with Cons.IH [of "AuthCache_Set ac k e"] call show ?case
    by (simp add: AuthCache_Get_Set)
qed

lemma AuthCache_Get_New: "AuthCache_Get NewAuthCache K = (zero_Time, False)"
  by (simp add: AuthCache_Get_def NewAuthCache_def)

text \<open>
  Claim C5. After \<^verbatim>\<open>Set(K, E)\<close>, \<^verbatim>\<open>Get(K)\<close> returns \<open>(E, true)\<close>, also after any
  calls of \<^verbatim>\<open>Set\<close> for other keys; a later \<^verbatim>\<open>Set(K, E')\<close> overwrites it; and in a
  new cache, a key that no call of \<^verbatim>\<open>Set\<close> was given is reported absent.
\<close>

theorem AuthCache_round_trip:
  "AuthCache_Get (AuthCache_Set ac K E) K = (E, True)
   \<and> (K \<notin> fst ` set calls \<longrightarrow> AuthCache_Get (AuthCache_Set_all (AuthCache_Set ac K E) calls) K = (E, True))
   \<and> AuthCache_Get (AuthCache_Set (AuthCache_Set_all (AuthCache_Set ac K E) calls) K E') K = (E', True)
   \<and> (K \<notin> fst ` set calls \<longrightarrow> snd (AuthCache_Get (AuthCache_Set_all NewAuthCache calls) K) = False)"
proof (intro conjI impI)
  show stored: "AuthCache_Get (AuthCache_Set ac K E) K = (E, True)"
    by (simp add: AuthCache_Get_Set)
  show "AuthCache_Get (AuthCache_Set (AuthCache_Set_all (AuthCache_Set ac K E) calls) K E') K
      = (E', True)"
    by (simp add: AuthCache_Get_Set)
next
  assume others: "K \<notin> fst ` set calls"
  then have "AuthCache_Get (AuthCache_Set_all (AuthCache_Set ac K E) calls) K
      = AuthCache_Get (AuthCache_Set ac K E) K"
    by (rule AuthCache_Get_Set_all_other)
  then show "AuthCache_Get (AuthCache_Set_all (AuthCache_Set ac K E) calls) K = (E, True)"
    by (simp add: AuthCache_Get_Set)
next
  assume never: "K \<notin> fst ` set calls"
  then have "AuthCache_Get (AuthCache_Set_all NewAuthCache calls) K = AuthCache_Get NewAuthCache K"
    by (rule AuthCache_Get_Set_all_other)
  then show "snd (AuthCache_Get (AuthCache_Set_all NewAuthCache calls) K) = False"
    by (simp add: AuthCache_Get_New)
qed

text \<open>The theorem of claim C5 at the key \<open>k1\<close>, with two other keys set after it.\<close>

theorem AuthCache_round_trip_witness:
  "AuthCache_Get (AuthCache_Set NewAuthCache ''k1'' 100) ''k1'' = (100, True)
   \<and> AuthCache_Get (AuthCache_Set_all (AuthCache_Set NewAuthCache ''k1'' 100) [(''k2'', 5), (''k3'', 7)]) ''k1''
       = (100, True)
   \<and> AuthCache_Get (AuthCache_Set (AuthCache_Set_all (AuthCache_Set NewAuthCache ''k1'' 100) [(''k2'', 5), (''k3'', 7)])
         ''k1'' 200) ''k1'' = (200, True)
   \<and> snd (AuthCache_Get (AuthCache_Set_all NewAuthCache [(''k2'', 5), (''k3'', 7)]) ''k1'') = False"
proof -
  have h: "''k1'' \<notin> fst ` set [(''k2'', 5::int), (''k3'', 7)]" by simp
  show ?thesis
    using h AuthCache_round_trip [of NewAuthCache "''k1''" 100 "[(''k2'', 5), (''k3'', 7)]" 200]
    by simp
qed

section \<open>Configuration defaults\<close>

text \<open>What each step of \<^verbatim>\<open>UnmarshalConfig\<close> does to the fields the later steps read.\<close>

lemma default_ListenAddr_fields:
  "ListenAddr (default_ListenAddr c) =
     (if ListenAddr c = [] \<and> ListenSocket c = [] then ''127.0.0.1:7422'' else ListenAddr c)"
  "ListenSocket (default_ListenAddr c) = ListenSocket c"
  "Path (default_ListenAddr c) = Path c"
  "Routines (default_ListenAddr c) = Routines c"
  "Name (default_ListenAddr c) = Name c"
  "AppsecConfig (default_ListenAddr c) = AppsecConfig c"
  "AppsecConfigPath (default_ListenAddr c) = AppsecConfigPath c"
  by (simp_all add: default_ListenAddr_def)

lemma default_Path_fields:
  "ListenAddr (default_Path c) = ListenAddr c"
  "ListenSocket (default_Path c) = ListenSocket c"
  "Path (default_Path c) = (if Path c = [] then ''/'' else Path c)"
  "Routines (default_Path c) = Routines c"
  "Name (default_Path c) = Name c"
  "AppsecConfig (default_Path c) = AppsecConfig c"
  "AppsecConfigPath (default_Path c) = AppsecConfigPath c"
  by (simp_all add: default_Path_def)

lemma leading_slash_fields:
  "ListenAddr (leading_slash c) = ListenAddr c"
  "ListenSocket (leading_slash c) = ListenSocket c"
  "Path (leading_slash c) =
     (case Path c of [] \<Rightarrow> [] | ch # _ \<Rightarrow> if ch \<noteq> CHR ''/'' then ''/'' @ Path c else Path c)"
  "Routines (leading_slash c) = Routines c"
  "Name (leading_slash c) = Name c"
  "AppsecConfig (leading_slash c) = AppsecConfig c"
  "AppsecConfigPath (leading_slash c) = AppsecConfigPath c"
  by (simp_all add: leading_slash_def split: list.splits)

lemma default_Mode_fields:
  "ListenAddr (default_Mode t c) = ListenAddr c"
  "ListenSocket (default_Mode t c) = ListenSocket c"
  "Path (default_Mode t c) = Path c"
  "Routines (default_Mode t c) = Routines c"
  "Name (default_Mode t c) = Name c"
  "AppsecConfig (default_Mode t c) = AppsecConfig c"
  "AppsecConfigPath (default_Mode t c) = AppsecConfigPath c"
  by (simp_all add: default_Mode_def)

lemma default_Routines_fields:
  "ListenAddr (default_Routines c) = ListenAddr c"
  "ListenSocket (default_Routines c) = ListenSocket c"
  "Path (default_Routines c) = Path c"
  "Routines (default_Routines c) = (if Routines c = 0 then 1 else Routines c)"
  "Name (default_Routines c) = Name c"
  "AppsecConfig (default_Routines c) = AppsecConfig c"
  "AppsecConfigPath (default_Routines c) = AppsecConfigPath c"
  by (simp_all add: default_Routines_def)

lemma default_Name_fields:
  "ListenAddr (default_Name c) = ListenAddr c"
  "ListenSocket (default_Name c) = ListenSocket c"
  "Path (default_Name c) = Path c"
  "Routines (default_Name c) = Routines c"
  "Name (default_Name c) =
     (if Name c \<noteq> [] then Name c
      else if ListenSocket c = [] then ListenAddr c @ Path c
      else if ListenAddr c = [] then ListenSocket c
      else [])"
  "AppsecConfig (default_Name c) = AppsecConfig c"
  "AppsecConfigPath (default_Name c) = AppsecConfigPath c"
  by (simp_all add: default_Name_def Let_def)

lemmas config_fields =
  default_ListenAddr_fields default_Path_fields leading_slash_fields default_Mode_fields
  default_Routines_fields default_Name_fields

lemma UnmarshalConfig_decoded:
  assumes "yaml_UnmarshalStrict deps y (config w) = (None, c)"
  shows "UnmarshalConfig deps y w =
     (if AppsecConfig c = [] \<and> AppsecConfigPath c = []
      then (Some (Err ''appsec_config or appsec_config_path must be set''),
            w\<lparr>config := default_Routines (default_Mode (TAIL_MODE deps)
                 (leading_slash (default_Path (default_ListenAddr c))))\<rparr>)
      else (None,
            w\<lparr>config := default_Name (default_Routines (default_Mode (TAIL_MODE deps)
                 (leading_slash (default_Path (default_ListenAddr c))))),
              lapiURL := Credentials_URL deps @ ''v1/decisions/stream'',
              AuthCache := NewAuthCache\<rparr>))"
  unfolding UnmarshalConfig_def assms Let_def prod.case option.case config_fields
  by (rule refl)

lemma UnmarshalConfig_error:
  assumes "yaml_UnmarshalStrict deps y (config w) = (None, c)"
  shows "fst (UnmarshalConfig deps y w) =
     (if AppsecConfig c = [] \<and> AppsecConfigPath c = []
      then Some (Err ''appsec_config or appsec_config_path must be set'') else None)"
  unfolding UnmarshalConfig_decoded [OF assms] by simp

lemma UnmarshalConfig_config:
  assumes "yaml_UnmarshalStrict deps y (config w) = (None, c)"
    and "\<not> (AppsecConfig c = [] \<and> AppsecConfigPath c = [])"
  shows "config (snd (UnmarshalConfig deps y w)) =
     default_Name (default_Routines (default_Mode (TAIL_MODE deps)
       (leading_slash (default_Path (default_ListenAddr c)))))"
  unfolding UnmarshalConfig_decoded [OF assms(1)] using assms(2)
  by (cases "AppsecConfig c = []") simp_all

lemma UnmarshalConfig_lapiURL:
  assumes "yaml_UnmarshalStrict deps y (config w) = (None, c)"
    and "\<not> (AppsecConfig c = [] \<and> AppsecConfigPath c = [])"
  shows "lapiURL (snd (UnmarshalConfig deps y w)) = Credentials_URL deps @ ''v1/decisions/stream''"
  unfolding UnmarshalConfig_decoded [OF assms(1)] using assms(2)
  by (cases "AppsecConfig c = []") simp_all

text \<open>
  Claim C6, amended. After a successful \<^verbatim>\<open>UnmarshalConfig\<close> of a configuration that
  decodes to \<open>c\<close>: (1) \<^verbatim>\<open>ListenAddr\<close> is \<^verbatim>\<open>127.0.0.1:7422\<close> when \<^verbatim>\<open>listen_addr\<close>
  and \<^verbatim>\<open>listen_socket\<close> were both empty, and is the configured \<^verbatim>\<open>listen_addr\<close>
  otherwise; (2) \<^verbatim>\<open>Path\<close> is \<^verbatim>\<open>/\<close> when it was empty, and always starts with
  \<^verbatim>\<open>/\<close>; (3) \<^verbatim>\<open>Routines\<close> is 1 when it was 0.
\<close>

theorem UnmarshalConfig_defaults:
  assumes dec: "yaml_UnmarshalStrict deps y (config w) = (None, c)"
    and ok: "UnmarshalConfig deps y w = (None, w')"
  shows "ListenAddr (config w') =
           (if ListenAddr c = [] \<and> ListenSocket c = [] then ''127.0.0.1:7422'' else ListenAddr c)
       \<and> (Path c = [] \<longrightarrow> Path (config w') = ''/'')
       \<and> (\<exists>rest. Path (config w') = CHR ''/'' # rest)
       \<and> (Routines c = 0 \<longrightarrow> Routines (config w') = 1)"
proof -
  from ok have "fst (UnmarshalConfig deps y w) = None" by simp
  then have set: "\<not> (AppsecConfig c = [] \<and> AppsecConfigPath c = [])"
    unfolding UnmarshalConfig_error [OF dec] by (simp split: if_splits)
  from ok have "config w' = config (snd (UnmarshalConfig deps y w))" by simp
  then have w': "config w' = default_Name (default_Routines (default_Mode (TAIL_MODE deps)
       (leading_slash (default_Path (default_ListenAddr c)))))"
    by (simp only: UnmarshalConfig_config [OF dec set])
  have la: "ListenAddr (config w') =
      (if ListenAddr c = [] \<and> ListenSocket c = [] then ''127.0.0.1:7422'' else ListenAddr c)"
    unfolding w' config_fields by (rule refl)
  have pa: "Path (config w') =
      (case (if Path c = [] then ''/'' else Path c) of
         [] \<Rightarrow> []
       | ch # _ \<Rightarrow> if ch \<noteq> CHR ''/'' then ''/'' @ (if Path c = [] then ''/'' else Path c)
                  else (if Path c = [] then ''/'' else Path c))"
    unfolding w' config_fields by (rule refl)
  have ro: "Routines (config w') = (if Routines c = 0 then 1 else Routines c)"
    unfolding w' config_fields by (rule refl)
  have p1: "Path c = [] \<longrightarrow> Path (config w') = ''/''"
    unfolding pa by simp
  have p2: "\<exists>rest. Path (config w') = CHR ''/'' # rest"
    unfolding pa by (cases "Path c") simp_all
  from la p1 p2 ro show ?thesis by simp
qed

lemma decoding_to_decodes:
  "yaml_UnmarshalStrict (decoding_to c) y c0 = (None, c)"
  by (simp add: decoding_to_def)

text \<open>
  Claim C6 as stated says that \<^verbatim>\<open>ListenAddr\<close> equals \<^verbatim>\<open>127.0.0.1:7422\<close> exactly when
  both \<^verbatim>\<open>listen_addr\<close> and \<^verbatim>\<open>listen_socket\<close> were empty. A configuration that gives
  \<^verbatim>\<open>listen_addr: 127.0.0.1:7422\<close> itself is accepted and ends with that address, though
  \<^verbatim>\<open>listen_addr\<close> was not empty.
\<close>

theorem UnmarshalConfig_default_addr_counterexample:
  "fst (UnmarshalConfig (decoding_to listen_addr_given) [] zero_source) = None
   \<and> ListenAddr (config (snd (UnmarshalConfig (decoding_to listen_addr_given) [] zero_source)))
       = ''127.0.0.1:7422''
   \<and> \<not> (ListenAddr listen_addr_given = [] \<and> ListenSocket listen_addr_given = [])"
proof -
  have set: "\<not> (AppsecConfig listen_addr_given = [] \<and> AppsecConfigPath listen_addr_given = [])"
    by (simp add: listen_addr_given_def)
  have a: "ListenAddr listen_addr_given = ''127.0.0.1:7422''"
    by (simp add: listen_addr_given_def)
  have "fst (UnmarshalConfig (decoding_to listen_addr_given) [] zero_source) = None"
    using set by (simp add: UnmarshalConfig_error [OF decoding_to_decodes])
  moreover
  have "ListenAddr (config (snd (UnmarshalConfig (decoding_to listen_addr_given) [] zero_source)))
       = ''127.0.0.1:7422''"
    unfolding UnmarshalConfig_config [OF decoding_to_decodes set] config_fields
    by (simp add: a)
  ultimately show ?thesis by (simp add: a)
qed

text \<open>The theorem of claim C6 at the zero configuration with a rule set named.\<close>

theorem UnmarshalConfig_defaults_witness:
  "ListenAddr (config (snd (UnmarshalConfig (decoding_to (zero_config\<lparr>AppsecConfig := ''rules''\<rparr>)) [] zero_source)))
     = ''127.0.0.1:7422''
   \<and> Path (config (snd (UnmarshalConfig (decoding_to (zero_config\<lparr>AppsecConfig := ''rules''\<rparr>)) [] zero_source)))
     = ''/''
   \<and> Routines (config (snd (UnmarshalConfig (decoding_to (zero_config\<lparr>AppsecConfig := ''rules''\<rparr>)) [] zero_source)))
     = 1"
proof -
  define c where "c = zero_config\<lparr>AppsecConfig := ''rules''\<rparr>"
  define res where "res = UnmarshalConfig (decoding_to c) [] zero_source"
  have dec: "yaml_UnmarshalStrict (decoding_to c) [] (config zero_source) = (None, c)"
    by (rule decoding_to_decodes)
  have e: "ListenAddr c = []" "ListenSocket c = []" "Path c = []" "Routines c = 0"
    "AppsecConfig c = ''rules''"
    by (simp_all add: c_def zero_config_def)
  have "fst res = None"
    unfolding res_def UnmarshalConfig_error [OF dec] by (simp add: e)
  then have ok: "UnmarshalConfig (decoding_to c) [] zero_source = (None, snd res)"
    unfolding res_def by (metis prod.collapse)
  show ?thesis
    using UnmarshalConfig_defaults [OF dec ok] e
    unfolding res_def c_def by simp
qed

text \<open>
  Claim C7. For a configuration that decodes (strictly) to \<open>c\<close>, \<^verbatim>\<open>UnmarshalConfig\<close>
  returns the error \<^verbatim>\<open>appsec_config or appsec_config_path must be set\<close> when both
  \<^verbatim>\<open>appsec_config\<close> and \<^verbatim>\<open>appsec_config_path\<close> are empty, and returns no error when
  at least one of them is set.
\<close>

theorem UnmarshalConfig_requires_appsec_config:
  assumes "yaml_UnmarshalStrict deps y (config w) = (None, c)"
  shows "(AppsecConfig c = [] \<and> AppsecConfigPath c = [] \<longrightarrow>
            fst (UnmarshalConfig deps y w) =
              Some (Err ''appsec_config or appsec_config_path must be set''))
       \<and> (AppsecConfig c \<noteq> [] \<or> AppsecConfigPath c \<noteq> [] \<longrightarrow>
            fst (UnmarshalConfig deps y w) = None)"
  unfolding UnmarshalConfig_error [OF assms] by simp

text \<open>The theorem of claim C7 at a configuration with neither and one with a path.\<close>

theorem UnmarshalConfig_requires_appsec_config_witness:
  "fst (UnmarshalConfig (decoding_to zero_config) [] zero_source) =
     Some (Err ''appsec_config or appsec_config_path must be set'')
   \<and> fst (UnmarshalConfig (decoding_to (zero_config\<lparr>AppsecConfigPath := ''/etc/appsec.yaml''\<rparr>))
           [] zero_source) = None"
proof -
  have a: "AppsecConfig zero_config = [] \<and> AppsecConfigPath zero_config = []"
    by (simp add: zero_config_def)
  have b: "AppsecConfig (zero_config\<lparr>AppsecConfigPath := ''/etc/appsec.yaml''\<rparr>) \<noteq> []
           \<or> AppsecConfigPath (zero_config\<lparr>AppsecConfigPath := ''/etc/appsec.yaml''\<rparr>) \<noteq> []"
    by simp
  show ?thesis
    using a b
      UnmarshalConfig_requires_appsec_config
        [OF decoding_to_decodes, of zero_config "[]" zero_source]
      UnmarshalConfig_requires_appsec_config
        [OF decoding_to_decodes, of "zero_config\<lparr>AppsecConfigPath := ''/etc/appsec.yaml''\<rparr>"
          "[]" zero_source]
    by simp
qed

section \<open>The upstream probe\<close>

text \<open>
  Claim C4. A source serves with the \<^verbatim>\<open>lapiURL\<close> that a successful
  \<^verbatim>\<open>UnmarshalConfig\<close> has set: the URL of the local API in the credentials followed by
  \<^verbatim>\<open>v1/decisions/stream\<close> (with the credentials URL \<open>base/\<close> this is
  \<open>base/v1/decisions/stream\<close>). The request \<^verbatim>\<open>IsAuth\<close> sends is the HEAD request
  to that URL whose only header is \<^verbatim>\<open>X-Api-Key\<close> with the key, through a client with
  a timeout of 200 ms. \<^verbatim>\<open>IsAuth\<close> is true exactly when that request can be built and
  comes back with the status 200: an error building the request, an error or a timeout of
  the client, and any other status give false. The result is a boolean, so no error
  reaches the caller.
\<close>

theorem IsAuth_iff_status_200:
  assumes dec: "yaml_UnmarshalStrict cdeps y (config w0) = (None, c)"
    and ok: "UnmarshalConfig cdeps y w0 = (None, w1)"
    and serving: "lapiURL w = lapiURL w1"
    and url: "url = Credentials_URL cdeps @ ''v1/decisions/stream''"
    and sent: "sent = \<lparr>Method = ''HEAD'', URL = url, Header = [''X-Api-Key'' \<mapsto> [apiKey]],
                      RemoteAddr = []\<rparr>"
  shows "lapiURL w = url
       \<and> (\<forall>base. Credentials_URL cdeps = base @ ''/'' \<longrightarrow> url = base @ ''/v1/decisions/stream'')
       \<and> (IsAuth deps w apiKey \<longleftrightarrow>
            NewRequest_error deps ''HEAD'' url = None
            \<and> (\<exists>resp. client_Do deps (200 * 1000000) sent = Inr resp \<and> StatusCode resp = 200))
       \<and> (NewRequest_error deps ''HEAD'' url \<noteq> None \<longrightarrow> \<not> IsAuth deps w apiKey)
       \<and> ((\<exists>err. client_Do deps (200 * 1000000) sent = Inl err) \<longrightarrow> \<not> IsAuth deps w apiKey)
       \<and> (\<forall>resp. client_Do deps (200 * 1000000) sent = Inr resp \<and> StatusCode resp \<noteq> 200
            \<longrightarrow> \<not> IsAuth deps w apiKey)"
proof -
  from ok have "fst (UnmarshalConfig cdeps y w0) = None" by simp
  then have set: "\<not> (AppsecConfig c = [] \<and> AppsecConfigPath c = [])"
    unfolding UnmarshalConfig_error [OF dec] by (simp split: if_splits)
  from ok have "lapiURL w1 = lapiURL (snd (UnmarshalConfig cdeps y w0))" by simp
  with serving have target: "lapiURL w = url"
    by (simp add: UnmarshalConfig_lapiURL [OF dec set] url)
  have slash: "\<forall>base. Credentials_URL cdeps = base @ ''/'' \<longrightarrow> url = base @ ''/v1/decisions/stream''"
    by (simp add: url)
  have added: "Header_Add Map.empty ''X-Api-Key'' apiKey = [''X-Api-Key'' \<mapsto> [apiKey]]"
    by (simp add: Header_Add_def)
  have run: "IsAuth deps w apiKey \<longleftrightarrow>
      NewRequest_error deps ''HEAD'' url = None
      \<and> (\<exists>resp. client_Do deps (200 * 1000000) sent = Inr resp \<and> StatusCode resp = 200)"
  proof (cases "NewRequest_error deps ''HEAD'' url")
    case (Some err)
    then show ?thesis
      by (simp add: IsAuth_def http_NewRequest_def MethodHead_def target)
  next
    case None
    show ?thesis
    proof (cases "client_Do deps (200 * 1000000) sent")
      case (Inl err)
      with None show ?thesis
        by (simp add: IsAuth_def http_NewRequest_def MethodHead_def Millisecond_def target
            added sent)
    next
      case (Inr resp)
      with None show ?thesis
        by (simp add: IsAuth_def http_NewRequest_def MethodHead_def Millisecond_def
            StatusOK_def target added sent)
    qed
  qed
  from run have "NewRequest_error deps ''HEAD'' url \<noteq> None \<longrightarrow> \<not> IsAuth deps w apiKey"
    and "(\<exists>err. client_Do deps (200 * 1000000) sent = Inl err) \<longrightarrow> \<not> IsAuth deps w apiKey"
    and "\<forall>resp. client_Do deps (200 * 1000000) sent = Inr resp \<and> StatusCode resp \<noteq> 200
            \<longrightarrow> \<not> IsAuth deps w apiKey"
    by auto
  with target slash run show ?thesis by blast
qed

text \<open>
  The theorem of claim C4 at a source configured with the credentials URL
  \<^verbatim>\<open>http://127.0.0.1:8080/\<close>: an upstream that accepts the key \<open>k1\<close> on exactly this
  request gives true for \<open>k1\<close> and false for \<open>k2\<close>, and an upstream that cannot be
  reached gives false.
\<close>

theorem IsAuth_iff_status_200_witness:
  "lapiURL (snd (UnmarshalConfig (decoding_to (zero_config\<lparr>AppsecConfig := ''rules''\<rparr>)) []
       zero_source)) = ''http://127.0.0.1:8080/v1/decisions/stream''
   \<and> IsAuth (lapi_accepting ''k1'')
        (snd (UnmarshalConfig (decoding_to (zero_config\<lparr>AppsecConfig := ''rules''\<rparr>)) []
           zero_source)) ''k1''
   \<and> \<not> IsAuth (lapi_accepting ''k1'')
        (snd (UnmarshalConfig (decoding_to (zero_config\<lparr>AppsecConfig := ''rules''\<rparr>)) []
           zero_source)) ''k2''
   \<and> \<not> IsAuth lapi_unreachable
        (snd (UnmarshalConfig (decoding_to (zero_config\<lparr>AppsecConfig := ''rules''\<rparr>)) []
           zero_source)) ''k1''"
proof -
  define c where "c = zero_config\<lparr>AppsecConfig := ''rules''\<rparr>"
  define w1 where "w1 = snd (UnmarshalConfig (decoding_to c) [] zero_source)"
  define url where "url = Credentials_URL (decoding_to c) @ ''v1/decisions/stream''"
  define sent where "sent = (\<lambda>k. \<lparr>Method = ''HEAD'', URL = url,
      Header = [''X-Api-Key'' \<mapsto> [k]], RemoteAddr = []\<rparr>)"
  have dec: "yaml_UnmarshalStrict (decoding_to c) [] (config zero_source) = (None, c)"
    by (rule decoding_to_decodes)
  have "AppsecConfig c = ''rules''"
    by (simp add: c_def)
  then have "fst (UnmarshalConfig (decoding_to c) [] zero_source) = None"
    unfolding UnmarshalConfig_error [OF dec] by simp
  then have ok: "UnmarshalConfig (decoding_to c) [] zero_source = (None, w1)"
    unfolding w1_def by (metis prod.collapse)
  have u: "url = ''http://127.0.0.1:8080/v1/decisions/stream''"
    by (simp add: url_def decoding_to_def)
  have built: "NewRequest_error (lapi_accepting ''k1'') ''HEAD'' url = None"
    "NewRequest_error lapi_unreachable ''HEAD'' url = None"
    by (simp_all add: lapi_accepting_def lapi_unreachable_def example_deps_def)
  have a1: "client_Do (lapi_accepting ''k1'') (200 * 1000000) (sent ''k1'') = Inr \<lparr>StatusCode = 200\<rparr>"
    by (simp add: lapi_accepting_def sent_def u Header_Get_def)
  have a2: "client_Do (lapi_accepting ''k1'') (200 * 1000000) (sent ''k2'') = Inr \<lparr>StatusCode = 403\<rparr>"
    by (simp add: lapi_accepting_def sent_def u Header_Get_def)
  have a3: "client_Do lapi_unreachable (200 * 1000000) (sent ''k1'')
      = Inl (Err ''context deadline exceeded'')"
    by (simp add: lapi_unreachable_def)
  note T = IsAuth_iff_status_200 [OF dec ok refl url_def]
  from T [of "sent ''k1''" "''k1''" "lapi_accepting ''k1''"] built a1
  have 1: "lapiURL w1 = url" and 2: "IsAuth (lapi_accepting ''k1'') w1 ''k1''"
    by (simp_all add: sent_def)
  from T [of "sent ''k2''" "''k2''" "lapi_accepting ''k1''"] built a2
  have 3: "\<not> IsAuth (lapi_accepting ''k1'') w1 ''k2''"
    by (simp add: sent_def)
  from T [of "sent ''k1''" "''k1''" lapi_unreachable] built a3
  have 4: "\<not> IsAuth lapi_unreachable w1 ''k1''"
    by (simp add: sent_def)
  from 1 2 3 4 show ?thesis
    unfolding w1_def c_def u by simp
qed

section \<open>The handler\<close>

lemma emit_fields:
  "source (emit e s) = source s"
  "clock (emit e s) = clock s"
  "ticks (emit e s) = ticks s"
  "AppsecReqCounter (emit e s) = AppsecReqCounter s"
  "AppsecBlockCounter (emit e s) = AppsecBlockCounter s"
  "trace (emit e s) = trace s @ [e]"
  by (simp_all add: emit_def)

lemma tick_fields:
  "source (s\<lparr>ticks := n\<rparr>) = source s"
  "clock (s\<lparr>ticks := n\<rparr>) = clock s"
  "ticks (s\<lparr>ticks := n\<rparr>) = n"
  "AppsecReqCounter (s\<lparr>ticks := n\<rparr>) = AppsecReqCounter s"
  "AppsecBlockCounter (s\<lparr>ticks := n\<rparr>) = AppsecBlockCounter s"
  "trace (s\<lparr>ticks := n\<rparr>) = trace s"
  by simp_all

lemma cache_Set_fields:
  "AuthCache (source (cache_Set s K e)) = AuthCache_Set (AuthCache (source s)) K e"
  "config (source (cache_Set s K e)) = config (source s)"
  "lapiURL (source (cache_Set s K e)) = lapiURL (source s)"
  "clock (cache_Set s K e) = clock s"
  "ticks (cache_Set s K e) = ticks s"
  "AppsecReqCounter (cache_Set s K e) = AppsecReqCounter s"
  "AppsecBlockCounter (cache_Set s K e) = AppsecBlockCounter s"
  "trace (cache_Set s K e) = trace s @ [CacheSet K e]"
  by (simp_all add: cache_Set_def emit_def)

lemma Inc_ReqCounter_fields:
  "source (Inc_ReqCounter l s) = source s"
  "clock (Inc_ReqCounter l s) = clock s"
  "ticks (Inc_ReqCounter l s) = ticks s"
  "AppsecReqCounter (Inc_ReqCounter l s) = (AppsecReqCounter s)(l := Suc (AppsecReqCounter s l))"
  "AppsecBlockCounter (Inc_ReqCounter l s) = AppsecBlockCounter s"
  "trace (Inc_ReqCounter l s) = trace s @ [ReqCounterInc l]"
  by (simp_all add: Inc_ReqCounter_def emit_def)

lemma Inc_BlockCounter_fields:
  "source (Inc_BlockCounter l s) = source s"
  "clock (Inc_BlockCounter l s) = clock s"
  "ticks (Inc_BlockCounter l s) = ticks s"
  "AppsecReqCounter (Inc_BlockCounter l s) = AppsecReqCounter s"
  "AppsecBlockCounter (Inc_BlockCounter l s) = (AppsecBlockCounter s)(l := Suc (AppsecBlockCounter s l))"
  "trace (Inc_BlockCounter l s) = trace s @ [BlockCounterInc l]"
  by (simp_all add: Inc_BlockCounter_def emit_def)

lemmas world_fields =
  emit_fields tick_fields cache_Set_fields Inc_ReqCounter_fields Inc_BlockCounter_fields

text \<open>The state after the second half of the handler, action by action.\<close>

lemma process_parse_error:
  assumes "NewParsedRequestFromRequest deps r = Inl err"
  shows "appsecHandler_process deps s r = (Returned, emit (WriteHeader 500) s)"
  using assms by (simp add: appsecHandler_process_def StatusInternalServerError_def)

lemma process_parsed:
  assumes "NewParsedRequestFromRequest deps r = Inr parsed"
    and "pr = parsed\<lparr>AppsecEngine := Name (config (source s))\<rparr>"
    and "labels = (RemoteAddrNormalized parsed, Name (config (source s)))"
    and "s2 = emit (InChanSend pr) (Inc_ReqCounter labels s)"
    and "s3 = (if InBandInterrupt (ResponseChannel_recv deps pr) then Inc_BlockCounter labels s2 else s2)"
    and "gr = GenerateResponse deps (ResponseChannel_recv deps pr)"
  shows "appsecHandler_process deps s r =
     (Returned,
      emit (case json_Marshal deps (snd gr) of Inl err \<Rightarrow> WriteHeader 500 | Inr body \<Rightarrow> Write body)
        (emit (WriteHeader (fst gr)) s3))"
  using assms
  by (simp add: appsecHandler_process_def Let_def StatusInternalServerError_def
      split: prod.splits sum.splits)

lemma process_preserves:
  "source (snd (appsecHandler_process deps s r)) = source s"
  "clock (snd (appsecHandler_process deps s r)) = clock s"
  "ticks (snd (appsecHandler_process deps s r)) = ticks s"
proof -
  have "source (snd (appsecHandler_process deps s r)) = source s
      \<and> clock (snd (appsecHandler_process deps s r)) = clock s
      \<and> ticks (snd (appsecHandler_process deps s r)) = ticks s"
  proof (cases "NewParsedRequestFromRequest deps r")
    case (Inl err)
    then show ?thesis by (simp add: process_parse_error world_fields)
  next
    case (Inr parsed)
    show ?thesis
      unfolding process_parsed [OF Inr refl refl refl refl refl]
      by (simp add: world_fields)
  qed
  then show "source (snd (appsecHandler_process deps s r)) = source s"
    "clock (snd (appsecHandler_process deps s r)) = clock s"
    "ticks (snd (appsecHandler_process deps s r)) = ticks s"
    by simp_all
qed

lemma probe_calls_append:
  "trace s' = trace s @ es \<Longrightarrow>
   probe_calls s' = probe_calls s @ concat (map (\<lambda>e. case e of IsAuthCall k \<Rightarrow> [k] | _ \<Rightarrow> []) es)"
  by (simp add: probe_calls_def)

lemma process_trace:
  "trace (snd (appsecHandler_process deps s r)) = trace s @
     (case NewParsedRequestFromRequest deps r of
        Inl err \<Rightarrow> [WriteHeader 500]
      | Inr parsed \<Rightarrow>
          [ReqCounterInc (RemoteAddrNormalized parsed, Name (config (source s))),
           InChanSend (parsed\<lparr>AppsecEngine := Name (config (source s))\<rparr>)]
          @ (if InBandInterrupt (ResponseChannel_recv deps
                  (parsed\<lparr>AppsecEngine := Name (config (source s))\<rparr>))
             then [BlockCounterInc (RemoteAddrNormalized parsed, Name (config (source s)))]
             else [])
          @ [WriteHeader (fst (GenerateResponse deps (ResponseChannel_recv deps
                  (parsed\<lparr>AppsecEngine := Name (config (source s))\<rparr>)))),
             (case json_Marshal deps (snd (GenerateResponse deps (ResponseChannel_recv deps
                  (parsed\<lparr>AppsecEngine := Name (config (source s))\<rparr>)))) of
                Inl err \<Rightarrow> WriteHeader 500 | Inr body \<Rightarrow> Write body)])"
proof (cases "NewParsedRequestFromRequest deps r")
  case (Inl err)
  then show ?thesis by (simp add: process_parse_error world_fields)
next
  case (Inr parsed)
  show ?thesis
    unfolding process_parsed [OF Inr refl refl refl refl refl]
    by (simp add: world_fields Inr)
qed

lemma process_probe_calls:
  "probe_calls (snd (appsecHandler_process deps s r)) = probe_calls s"
  unfolding probe_calls_append [OF process_trace]
  by (simp split: sum.splits)

lemma recheck_needed_Get:
  "recheck_needed s1 (AuthCache_Get ac K) =
     (case APIKeys ac K of
        None \<Rightarrow> (True, s1)
      | Some E \<Rightarrow> (E < clock s1 (ticks s1), s1\<lparr>ticks := Suc (ticks s1)\<rparr>))"
  by (simp add: recheck_needed_def AuthCache_Get_def time_Now_def split: option.splits)

lemma before_probe_fields:
  "source (before_probe s K) = source s"
  "clock (before_probe s K) = clock s"
  "ticks (before_probe s K) =
     (case APIKeys (AuthCache (source s)) K of None \<Rightarrow> ticks s | Some E \<Rightarrow> Suc (ticks s))"
  "AppsecReqCounter (before_probe s K) = AppsecReqCounter s"
  "AppsecBlockCounter (before_probe s K) = AppsecBlockCounter s"
  "trace (before_probe s K) = trace s @ [CacheGet K]"
  by (simp_all add: before_probe_def emit_fields split: option.splits)


text \<open>The ways through the first half of the handler.\<close>

lemma auth_no_key:
  assumes "Header_Get (Header r) (APIKeyHeaderName deps) = []"
  shows "appsecHandler_auth deps s r = (Some Returned, emit (WriteHeader 401) s)"
  using assms by (simp add: appsecHandler_auth_def StatusUnauthorized_def)

lemma auth_fresh:
  assumes "Header_Get (Header r) (APIKeyHeaderName deps) = K" "K \<noteq> []"
    and "APIKeys (AuthCache (source s)) K = Some E" "clock s (ticks s) \<le> E"
  shows "appsecHandler_auth deps s r = (None, (emit (CacheGet K) s)\<lparr>ticks := Suc (ticks s)\<rparr>)"
  using assms
  by (simp add: appsecHandler_auth_def cache_Get_def recheck_needed_Get emit_fields)

lemma auth_stale:
  assumes "Header_Get (Header r) (APIKeyHeaderName deps) = K" "K \<noteq> []"
    and "APIKeys (AuthCache (source s)) K = None
         \<or> (\<exists>E. APIKeys (AuthCache (source s)) K = Some E \<and> E < clock s (ticks s))"
  shows "appsecHandler_auth deps s r =
     (let s3 = emit (IsAuthCall K) (before_probe s K) in
      if \<not> IsAuth deps (source s) K then (Some Returned, emit (WriteHeader 401) s3)
      else (case AuthCacheDuration (config (source s)) of
              None \<Rightarrow> (Some Panicked, s3\<lparr>ticks := Suc (ticks s3)\<rparr>)
            | Some d \<Rightarrow>
                (None, cache_Set (s3\<lparr>ticks := Suc (ticks s3)\<rparr>) K (clock s (ticks s3) + d))))"
  using assms
  by (auto simp: appsecHandler_auth_def cache_Get_def recheck_needed_Get emit_fields Let_def
      before_probe_def time_Now_def StatusUnauthorized_def split: option.splits)

lemma probe_calls_fields:
  "probe_calls (emit e s) = probe_calls s @ (case e of IsAuthCall k \<Rightarrow> [k] | _ \<Rightarrow> [])"
  "probe_calls (s\<lparr>ticks := n\<rparr>) = probe_calls s"
  "probe_calls (cache_Set s K e') = probe_calls s"
  "probe_calls (before_probe s K) = probe_calls s"
  by (simp_all add: probe_calls_def world_fields before_probe_fields)

lemma metric_trace_fields:
  "metric_trace (emit e s) = metric_trace s @ (if is_metric_or_send e then [e] else [])"
  "metric_trace (s\<lparr>ticks := n\<rparr>) = metric_trace s"
  "metric_trace (cache_Set s K e') = metric_trace s"
  "metric_trace (before_probe s K) = metric_trace s"
  by (simp_all add: metric_trace_def world_fields before_probe_fields is_metric_or_send_def)

lemma enqueued_fields:
  "enqueued (emit e s) = enqueued s @ (case e of InChanSend p \<Rightarrow> [p] | _ \<Rightarrow> [])"
  "enqueued (s\<lparr>ticks := n\<rparr>) = enqueued s"
  "enqueued (cache_Set s K e') = enqueued s"
  "enqueued (before_probe s K) = enqueued s"
  by (simp_all add: enqueued_def world_fields before_probe_fields)

lemma key_cases:
  fixes K :: string and s :: world
  obtains (no_key) "K = []"
  | (fresh) E where "K \<noteq> []" "APIKeys (AuthCache (source s)) K = Some E" "clock s (ticks s) \<le> E"
  | (stale) "K \<noteq> []" "APIKeys (AuthCache (source s)) K = None
         \<or> (\<exists>E. APIKeys (AuthCache (source s)) K = Some E \<and> E < clock s (ticks s))"
proof (cases "K = []")
  case True
  then show ?thesis by (rule no_key)
next
  case ne: False
  show ?thesis
  proof (cases "APIKeys (AuthCache (source s)) K")
    case None
    with ne show ?thesis by (intro stale) simp_all
  next
    case (Some E)
    show ?thesis
    proof (cases "clock s (ticks s) \<le> E")
      case True
      with ne Some show ?thesis by (intro fresh)
    next
      case False
      with ne Some show ?thesis by (intro stale) simp_all
    qed
  qed
qed

lemma handler_no_key:
  assumes "Header_Get (Header r) (APIKeyHeaderName deps) = []"
  shows "appsecHandler deps s r = (Returned, emit (WriteHeader 401) s)"
  by (simp add: appsecHandler_def auth_no_key [OF assms])

lemma handler_fresh:
  assumes "Header_Get (Header r) (APIKeyHeaderName deps) = K" "K \<noteq> []"
    and "APIKeys (AuthCache (source s)) K = Some E" "clock s (ticks s) \<le> E"
  shows "appsecHandler deps s r =
     appsecHandler_process deps ((emit (CacheGet K) s)\<lparr>ticks := Suc (ticks s)\<rparr>) r"
  by (simp add: appsecHandler_def auth_fresh [OF assms])

lemma handler_fresh_state:
  assumes "Header_Get (Header r) (APIKeyHeaderName deps) = K" "K \<noteq> []"
    and "APIKeys (AuthCache (source s)) K = Some E" "clock s (ticks s) \<le> E"
  shows "probe_calls (snd (appsecHandler deps s r)) = probe_calls s"
    and "source (snd (appsecHandler deps s r)) = source s"
    and "clock (snd (appsecHandler deps s r)) = clock s"
    and "ticks (snd (appsecHandler deps s r)) = Suc (ticks s)"
  unfolding handler_fresh [OF assms]
  by (simp_all add: process_probe_calls process_preserves probe_calls_fields world_fields)

lemma handler_rejected:
  assumes "Header_Get (Header r) (APIKeyHeaderName deps) = K" "K \<noteq> []"
    and "APIKeys (AuthCache (source s)) K = None
         \<or> (\<exists>E. APIKeys (AuthCache (source s)) K = Some E \<and> E < clock s (ticks s))"
    and "\<not> IsAuth deps (source s) K"
  shows "appsecHandler deps s r =
     (Returned, emit (WriteHeader 401) (emit (IsAuthCall K) (before_probe s K)))"
  unfolding appsecHandler_def auth_stale [OF assms(1-3)] Let_def using assms(4) by simp

lemma handler_panicked:
  assumes "Header_Get (Header r) (APIKeyHeaderName deps) = K" "K \<noteq> []"
    and "APIKeys (AuthCache (source s)) K = None
         \<or> (\<exists>E. APIKeys (AuthCache (source s)) K = Some E \<and> E < clock s (ticks s))"
    and "IsAuth deps (source s) K"
    and "AuthCacheDuration (config (source s)) = None"
  shows "appsecHandler deps s r =
     (Panicked, (emit (IsAuthCall K) (before_probe s K))
                   \<lparr>ticks := Suc (ticks (before_probe s K))\<rparr>)"
  unfolding appsecHandler_def auth_stale [OF assms(1-3)] Let_def using assms(4,5)
  by (simp add: emit_fields)

lemma handler_stored:
  assumes "Header_Get (Header r) (APIKeyHeaderName deps) = K" "K \<noteq> []"
    and "APIKeys (AuthCache (source s)) K = None
         \<or> (\<exists>E. APIKeys (AuthCache (source s)) K = Some E \<and> E < clock s (ticks s))"
    and "IsAuth deps (source s) K"
    and "AuthCacheDuration (config (source s)) = Some d"
  shows "appsecHandler deps s r =
     appsecHandler_process deps
       (cache_Set ((emit (IsAuthCall K) (before_probe s K))
                     \<lparr>ticks := Suc (ticks (before_probe s K))\<rparr>)
          K (clock s (ticks (before_probe s K)) + d)) r"
  unfolding appsecHandler_def auth_stale [OF assms(1-3)] Let_def using assms(4,5)
  by (simp add: emit_fields)

lemma handler_stale_probe_calls:
  assumes "Header_Get (Header r) (APIKeyHeaderName deps) = K" "K \<noteq> []"
    and "APIKeys (AuthCache (source s)) K = None
         \<or> (\<exists>E. APIKeys (AuthCache (source s)) K = Some E \<and> E < clock s (ticks s))"
  shows "probe_calls (snd (appsecHandler deps s r)) = probe_calls s @ [K]"
proof (cases "IsAuth deps (source s) K")
  case False
  show ?thesis
    unfolding handler_rejected [OF assms False] by (simp add: probe_calls_fields)
next
  case True
  show ?thesis
  proof (cases "AuthCacheDuration (config (source s))")
    case None
    show ?thesis
      unfolding handler_panicked [OF assms True None] by (simp add: probe_calls_fields)
  next
    case (Some d)
    show ?thesis
      unfolding handler_stored [OF assms True Some]
      by (simp add: process_probe_calls probe_calls_fields)
  qed
qed

lemma serve_cached:
  assumes "K \<noteq> []"
    and "list_all (\<lambda>r. Header_Get (Header r) (APIKeyHeaderName deps) = K) rs"
    and "APIKeys (AuthCache (source s)) K = Some E"
    and "\<forall>i<length rs. clock s (ticks s + i) \<le> E"
  shows "probe_calls (serve deps s rs) = probe_calls s
       \<and> source (serve deps s rs) = source s"
  using assms(2-4)
proof (induction rs arbitrary: s)
  case Nil
  show ?case by simp
next
  case (Cons r rs)
  let ?s1 = "snd (appsecHandler deps s r)"
  from Cons.prems(1) have key: "Header_Get (Header r) (APIKeyHeaderName deps) = K"
    and keys: "list_all (\<lambda>r. Header_Get (Header r) (APIKeyHeaderName deps) = K) rs"
    by simp_all
  from Cons.prems(3) have now: "clock s (ticks s) \<le> E" by force
  note st = handler_fresh_state [OF key assms(1) Cons.prems(2) now]
  have cached: "APIKeys (AuthCache (source ?s1)) K = Some E"
    by (simp add: st Cons.prems(2))
  have later: "\<forall>i<length rs. clock ?s1 (ticks ?s1 + i) \<le> E"
  proof (intro allI impI)
    fix i assume "i < length rs"
    then have "Suc i < length (r # rs)" by simp
    with Cons.prems(3) have "clock s (ticks s + Suc i) \<le> E" by blast
    then show "clock ?s1 (ticks ?s1 + i) \<le> E" by (simp add: st)
  qed
  from Cons.IH [OF keys cached later] show ?case
    by (simp add: st)
qed

lemma handler_stored_state:
  assumes "Header_Get (Header r) (APIKeyHeaderName deps) = K" "K \<noteq> []"
    and "APIKeys (AuthCache (source s)) K = None
         \<or> (\<exists>E. APIKeys (AuthCache (source s)) K = Some E \<and> E < clock s (ticks s))"
    and "IsAuth deps (source s) K"
    and "AuthCacheDuration (config (source s)) = Some d"
  shows "APIKeys (AuthCache (source (snd (appsecHandler deps s r)))) K =
           Some (clock s (if APIKeys (AuthCache (source s)) K = None then ticks s
                          else Suc (ticks s)) + d)"
  unfolding handler_stored [OF assms]
  by (simp add: process_preserves world_fields before_probe_fields AuthCache_Set_def
      split: option.splits)

text \<open>
  A run of the handler changes the cache at most at the key of its request, and only
  when that key is not empty: the empty key never enters the cache, so every key found
  in the cache of a serving source is a key a request can carry.
\<close>

lemma handler_cache_keys:
  "APIKeys (AuthCache (source (snd (appsecHandler deps s r)))) K' =
     APIKeys (AuthCache (source s)) K'
   \<or> (K' = Header_Get (Header r) (APIKeyHeaderName deps) \<and> K' \<noteq> [])"
proof -
  define K where "K = Header_Get (Header r) (APIKeyHeaderName deps)"
  have "APIKeys (AuthCache (source (snd (appsecHandler deps s r)))) K' =
      APIKeys (AuthCache (source s)) K' \<or> (K' = K \<and> K' \<noteq> [])"
  proof (cases rule: key_cases [where K = K and s = s])
    case no_key
    then have "Header_Get (Header r) (APIKeyHeaderName deps) = []" by (simp add: K_def)
    then show ?thesis by (simp add: handler_no_key world_fields)
  next
    case (fresh E)
    show ?thesis
      by (simp add: handler_fresh_state(2) [OF K_def [symmetric] fresh])
  next
    case stale
    show ?thesis
    proof (cases "IsAuth deps (source s) K")
      case False
      show ?thesis
        unfolding handler_rejected [OF K_def [symmetric] stale False]
        by (simp add: world_fields before_probe_fields)
    next
      case True
      show ?thesis
      proof (cases "AuthCacheDuration (config (source s))")
        case None
        show ?thesis
          unfolding handler_panicked [OF K_def [symmetric] stale True None]
          by (simp add: world_fields before_probe_fields)
      next
        case (Some d)
        show ?thesis
          unfolding handler_stored [OF K_def [symmetric] stale True Some]
          using stale(1)
          by (simp add: process_preserves world_fields before_probe_fields AuthCache_Set_def)
      qed
    qed
  qed
  then show ?thesis by (simp only: K_def)
qed

lemma serve_never_caches_empty_key:
  "APIKeys (AuthCache (source s)) [] = None \<Longrightarrow>
   APIKeys (AuthCache (source (serve deps s rs))) [] = None"
proof (induction rs arbitrary: s)
  case Nil
  then show ?case by simp
next
  case (Cons r rs)
  from handler_cache_keys [of deps s r "[]"] Cons.prems
  have "APIKeys (AuthCache (source (snd (appsecHandler deps s r)))) [] = None"
    by simp
  then show ?case
    by (simp add: Cons.IH)
qed

text \<open>
  Claim C1. A request carries the key \<open>K\<close>. If the cache holds \<open>K\<close> with the expiration
  \<open>E\<close> and the clock reads at most \<open>E\<close>, the handler goes on to parse the request
  without calling the probe, and leaves the source as it is. If \<open>K\<close> is absent or
  expired and the probe accepts it, the probe is called once, the cache then holds \<open>K\<close>
  with the expiration \<open>now + auth_cache_duration\<close>, \<open>now\<close> being the clock reading
  taken for the store, and the requests with \<open>K\<close> that follow while the clock reads at
  most that expiration do not call the probe.
\<close>

theorem cached_key_is_not_probed:
  assumes key: "Header_Get (Header r) (APIKeyHeaderName deps) = K" "K \<noteq> []"
  shows "(\<forall>E. APIKeys (AuthCache (source s)) K = Some E \<and> clock s (ticks s) \<le> E \<longrightarrow>
            appsecHandler deps s r =
              appsecHandler_process deps ((emit (CacheGet K) s)\<lparr>ticks := Suc (ticks s)\<rparr>) r
          \<and> probe_calls (snd (appsecHandler deps s r)) = probe_calls s
          \<and> source (snd (appsecHandler deps s r)) = source s)
       \<and> (\<forall>d s1 now.
            (APIKeys (AuthCache (source s)) K = None
             \<or> (\<exists>E. APIKeys (AuthCache (source s)) K = Some E \<and> E < clock s (ticks s)))
            \<and> IsAuth deps (source s) K
            \<and> AuthCacheDuration (config (source s)) = Some d
            \<and> s1 = snd (appsecHandler deps s r)
            \<and> now = clock s (if APIKeys (AuthCache (source s)) K = None then ticks s
                             else Suc (ticks s)) \<longrightarrow>
              probe_calls s1 = probe_calls s @ [K]
            \<and> APIKeys (AuthCache (source s1)) K = Some (now + d)
            \<and> (\<forall>rs. list_all (\<lambda>r'. Header_Get (Header r') (APIKeyHeaderName deps) = K) rs
                    \<and> (\<forall>i<length rs. clock s1 (ticks s1 + i) \<le> now + d)
                  \<longrightarrow> probe_calls (serve deps s1 rs) = probe_calls s @ [K]))"
proof (intro conjI allI impI)
  fix E
  assume "APIKeys (AuthCache (source s)) K = Some E \<and> clock s (ticks s) \<le> E"
  then have c: "APIKeys (AuthCache (source s)) K = Some E" and n: "clock s (ticks s) \<le> E"
    by simp_all
  show "appsecHandler deps s r =
      appsecHandler_process deps ((emit (CacheGet K) s)\<lparr>ticks := Suc (ticks s)\<rparr>) r"
    by (rule handler_fresh [OF key c n])
  show "probe_calls (snd (appsecHandler deps s r)) = probe_calls s"
    by (rule handler_fresh_state(1) [OF key c n])
  show "source (snd (appsecHandler deps s r)) = source s"
    by (rule handler_fresh_state(2) [OF key c n])
next
  fix d s1 now
  assume h: "(APIKeys (AuthCache (source s)) K = None
             \<or> (\<exists>E. APIKeys (AuthCache (source s)) K = Some E \<and> E < clock s (ticks s)))
            \<and> IsAuth deps (source s) K
            \<and> AuthCacheDuration (config (source s)) = Some d
            \<and> s1 = snd (appsecHandler deps s r)
            \<and> now = clock s (if APIKeys (AuthCache (source s)) K = None then ticks s
                             else Suc (ticks s))"
  then have stale: "APIKeys (AuthCache (source s)) K = None
             \<or> (\<exists>E. APIKeys (AuthCache (source s)) K = Some E \<and> E < clock s (ticks s))"
    and ok: "IsAuth deps (source s) K"
    and d: "AuthCacheDuration (config (source s)) = Some d"
    and s1: "s1 = snd (appsecHandler deps s r)"
    and now: "now = clock s (if APIKeys (AuthCache (source s)) K = None then ticks s
                             else Suc (ticks s))"
    by blast+
  show calls: "probe_calls s1 = probe_calls s @ [K]"
    unfolding s1 by (rule handler_stale_probe_calls [OF key stale])
  show stored: "APIKeys (AuthCache (source s1)) K = Some (now + d)"
    unfolding s1 now by (rule handler_stored_state [OF key stale ok d])
  fix rs :: "Request list"
  assume "list_all (\<lambda>r'. Header_Get (Header r') (APIKeyHeaderName deps) = K) rs
          \<and> (\<forall>i<length rs. clock s1 (ticks s1 + i) \<le> now + d)"
  then have keys: "list_all (\<lambda>r'. Header_Get (Header r') (APIKeyHeaderName deps) = K) rs"
    and within: "\<forall>i<length rs. clock s1 (ticks s1 + i) \<le> now + d"
    by simp_all
  from serve_cached [OF key(2) keys stored within] calls
  show "probe_calls (serve deps s1 rs) = probe_calls s @ [K]"
    by simp
qed

text \<open>
  Claim C2. A request carries the key \<open>K\<close>, which is absent from the cache or expired,
  and the probe rejects it. The handler reads the cache, calls the probe, answers 401 and
  returns; the source, and so the cache, is unchanged. A later request with the same key,
  still absent or expired, calls the probe again.
\<close>

theorem failed_probe_is_not_cached:
  assumes key: "Header_Get (Header r) (APIKeyHeaderName deps) = K" "K \<noteq> []"
    and stale: "APIKeys (AuthCache (source s)) K = None
         \<or> (\<exists>E. APIKeys (AuthCache (source s)) K = Some E \<and> E < clock s (ticks s))"
    and rejected: "\<not> IsAuth deps (source s) K"
    and s1: "s1 = snd (appsecHandler deps s r)"
  shows "fst (appsecHandler deps s r) = Returned
       \<and> trace s1 = trace s @ [CacheGet K, IsAuthCall K, WriteHeader 401]
       \<and> source s1 = source s
       \<and> (\<forall>deps2 r2.
            Header_Get (Header r2) (APIKeyHeaderName deps2) = K
            \<and> (APIKeys (AuthCache (source s1)) K = None
               \<or> (\<exists>E. APIKeys (AuthCache (source s1)) K = Some E \<and> E < clock s1 (ticks s1)))
            \<longrightarrow> probe_calls (snd (appsecHandler deps2 s1 r2)) = probe_calls s @ [K, K])"
proof (intro conjI allI impI)
  note run = handler_rejected [OF key stale rejected]
  show "fst (appsecHandler deps s r) = Returned"
    unfolding run by simp
  show "trace s1 = trace s @ [CacheGet K, IsAuthCall K, WriteHeader 401]"
    unfolding s1 run by (simp add: world_fields before_probe_fields)
  show "source s1 = source s"
    unfolding s1 run by (simp add: world_fields before_probe_fields)
  have calls: "probe_calls s1 = probe_calls s @ [K]"
    unfolding s1 by (rule handler_stale_probe_calls [OF key stale])
  fix deps2 :: handler_deps and r2 :: Request
  assume "Header_Get (Header r2) (APIKeyHeaderName deps2) = K
            \<and> (APIKeys (AuthCache (source s1)) K = None
               \<or> (\<exists>E. APIKeys (AuthCache (source s1)) K = Some E \<and> E < clock s1 (ticks s1)))"
  then have key2: "Header_Get (Header r2) (APIKeyHeaderName deps2) = K"
    and stale2: "APIKeys (AuthCache (source s1)) K = None
               \<or> (\<exists>E. APIKeys (AuthCache (source s1)) K = Some E \<and> E < clock s1 (ticks s1))"
    by simp_all
  from handler_stale_probe_calls [OF key2 key(2) stale2] calls
  show "probe_calls (snd (appsecHandler deps2 s1 r2)) = probe_calls s @ [K, K]"
    by simp
qed

text \<open>
  Claim C3. For a request whose API-key header is missing or empty, the handler writes
  the status 401 and returns, and that is all it does: the probe is not called, the cache
  is neither read nor written, and no request is handed to a runner.
\<close>

theorem missing_key_is_unauthorized:
  assumes "Header r (APIKeyHeaderName deps) = None
           \<or> Header_Get (Header r) (APIKeyHeaderName deps) = []"
  shows "appsecHandler deps s r = (Returned, s\<lparr>trace := trace s @ [WriteHeader 401]\<rparr>)
       \<and> probe_calls (snd (appsecHandler deps s r)) = probe_calls s
       \<and> source (snd (appsecHandler deps s r)) = source s
       \<and> enqueued (snd (appsecHandler deps s r)) = enqueued s"
proof -
  from assms have empty: "Header_Get (Header r) (APIKeyHeaderName deps) = []"
    by (auto simp: Header_Get_def)
  have "emit (WriteHeader 401) s = s\<lparr>trace := trace s @ [WriteHeader 401]\<rparr>"
    by (simp add: emit_def)
  then show ?thesis
    unfolding handler_no_key [OF empty]
    by (simp add: probe_calls_fields enqueued_fields world_fields)
qed

lemma auth_keeps:
  "config (source (snd (appsecHandler_auth deps s r))) = config (source s)"
  "AppsecReqCounter (snd (appsecHandler_auth deps s r)) = AppsecReqCounter s"
  "AppsecBlockCounter (snd (appsecHandler_auth deps s r)) = AppsecBlockCounter s"
  "metric_trace (snd (appsecHandler_auth deps s r)) = metric_trace s"
  "enqueued (snd (appsecHandler_auth deps s r)) = enqueued s"
proof -
  define K where "K = Header_Get (Header r) (APIKeyHeaderName deps)"
  have "config (source (snd (appsecHandler_auth deps s r))) = config (source s)
      \<and> AppsecReqCounter (snd (appsecHandler_auth deps s r)) = AppsecReqCounter s
      \<and> AppsecBlockCounter (snd (appsecHandler_auth deps s r)) = AppsecBlockCounter s
      \<and> metric_trace (snd (appsecHandler_auth deps s r)) = metric_trace s
      \<and> enqueued (snd (appsecHandler_auth deps s r)) = enqueued s"
  proof (cases rule: key_cases [where K = K and s = s])
    case no_key
    then have "Header_Get (Header r) (APIKeyHeaderName deps) = []" by (simp add: K_def)
    then show ?thesis
      by (simp add: auth_no_key world_fields metric_trace_fields enqueued_fields
          is_metric_or_send_def)
  next
    case (fresh E)
    show ?thesis
      unfolding auth_fresh [OF K_def [symmetric] fresh]
      by (simp add: world_fields metric_trace_fields enqueued_fields is_metric_or_send_def)
  next
    case stale
    show ?thesis
      unfolding auth_stale [OF K_def [symmetric] stale] Let_def
      by (simp add: world_fields before_probe_fields metric_trace_fields enqueued_fields
          is_metric_or_send_def split: option.splits)
  qed
  then show "config (source (snd (appsecHandler_auth deps s r))) = config (source s)"
    "AppsecReqCounter (snd (appsecHandler_auth deps s r)) = AppsecReqCounter s"
    "AppsecBlockCounter (snd (appsecHandler_auth deps s r)) = AppsecBlockCounter s"
    "metric_trace (snd (appsecHandler_auth deps s r)) = metric_trace s"
    "enqueued (snd (appsecHandler_auth deps s r)) = enqueued s"
    by simp_all
qed

text \<open>When the first half lets a request through, in terms of the key, cache and probe.\<close>

lemma auth_passes_iff:
  "fst (appsecHandler_auth deps s r) = None \<longleftrightarrow>
     Header_Get (Header r) (APIKeyHeaderName deps) \<noteq> []
     \<and> ((\<exists>E. APIKeys (AuthCache (source s)) (Header_Get (Header r) (APIKeyHeaderName deps)) = Some E
              \<and> clock s (ticks s) \<le> E)
        \<or> (IsAuth deps (source s) (Header_Get (Header r) (APIKeyHeaderName deps))
           \<and> AuthCacheDuration (config (source s)) \<noteq> None))"
proof -
  define K where "K = Header_Get (Header r) (APIKeyHeaderName deps)"
  have "fst (appsecHandler_auth deps s r) = None \<longleftrightarrow>
     K \<noteq> [] \<and> ((\<exists>E. APIKeys (AuthCache (source s)) K = Some E \<and> clock s (ticks s) \<le> E)
        \<or> (IsAuth deps (source s) K \<and> AuthCacheDuration (config (source s)) \<noteq> None))"
  proof (cases rule: key_cases [where K = K and s = s])
    case no_key
    then have "Header_Get (Header r) (APIKeyHeaderName deps) = []" by (simp add: K_def)
    then show ?thesis
      using no_key by (simp add: auth_no_key)
  next
    case (fresh E)
    show ?thesis
      unfolding auth_fresh [OF K_def [symmetric] fresh] using fresh by simp
  next
    case stale
    then have "\<not> (\<exists>E. APIKeys (AuthCache (source s)) K = Some E \<and> clock s (ticks s) \<le> E)"
      by auto
    then show ?thesis
      unfolding auth_stale [OF K_def [symmetric] stale] Let_def
      using stale(1) by (simp split: option.splits)
  qed
  then show ?thesis by (simp only: K_def)
qed

lemma process_counters:
  assumes "NewParsedRequestFromRequest deps r = Inr parsed"
    and "labels = (RemoteAddrNormalized parsed, Name (config (source s)))"
    and "pr = parsed\<lparr>AppsecEngine := Name (config (source s))\<rparr>"
  shows "AppsecReqCounter (snd (appsecHandler_process deps s r)) =
           (AppsecReqCounter s)(labels := Suc (AppsecReqCounter s labels))"
    and "AppsecBlockCounter (snd (appsecHandler_process deps s r)) =
           (if InBandInterrupt (ResponseChannel_recv deps pr)
            then (AppsecBlockCounter s)(labels := Suc (AppsecBlockCounter s labels))
            else AppsecBlockCounter s)"
    and "metric_trace (snd (appsecHandler_process deps s r)) =
           metric_trace s @ [ReqCounterInc labels, InChanSend pr]
           @ (if InBandInterrupt (ResponseChannel_recv deps pr) then [BlockCounterInc labels]
              else [])"
    and "enqueued (snd (appsecHandler_process deps s r)) = enqueued s @ [pr]"
  unfolding process_parsed [OF assms(1) assms(3) assms(2) refl refl refl]
  by (simp_all add: world_fields metric_trace_def enqueued_def is_metric_or_send_def
      split: sum.splits)

lemma process_unparsed:
  assumes "NewParsedRequestFromRequest deps r = Inl err"
  shows "AppsecReqCounter (snd (appsecHandler_process deps s r)) = AppsecReqCounter s"
    and "AppsecBlockCounter (snd (appsecHandler_process deps s r)) = AppsecBlockCounter s"
    and "metric_trace (snd (appsecHandler_process deps s r)) = metric_trace s"
    and "enqueued (snd (appsecHandler_process deps s r)) = enqueued s"
  unfolding process_parse_error [OF assms]
  by (simp_all add: world_fields metric_trace_fields enqueued_fields is_metric_or_send_def)

lemma handler_after_auth:
  "fst (appsecHandler_auth deps s r) = None \<Longrightarrow>
     appsecHandler deps s r = appsecHandler_process deps (snd (appsecHandler_auth deps s r)) r"
  "fst (appsecHandler_auth deps s r) \<noteq> None \<Longrightarrow>
     snd (appsecHandler deps s r) = snd (appsecHandler_auth deps s r)"
  by (cases "appsecHandler_auth deps s r"; cases "fst (appsecHandler_auth deps s r)";
      simp add: appsecHandler_def)+

text \<open>
  Claim C8. For a request that passes the authentication (the first half of the handler
  lets it through: lemma \<open>auth_passes_iff\<close> says when) and the parsing, the request
  counter of the labels (normalized remote address, engine name) goes up by one, once
  and before the request is sent on the work channel, and the block counter of the same
  labels goes up by one exactly when the verdict received has \<^verbatim>\<open>InBandInterrupt\<close> set.
  For any other request neither counter moves.
\<close>

theorem handler_counts_requests_and_blocks:
  assumes labels: "labels = (RemoteAddrNormalized parsed, Name (config (source s)))"
    and pr: "pr = parsed\<lparr>AppsecEngine := Name (config (source s))\<rparr>"
    and s': "s' = snd (appsecHandler deps s r)"
  shows "(fst (appsecHandler_auth deps s r) = None
          \<and> NewParsedRequestFromRequest deps r = Inr parsed \<longrightarrow>
            AppsecReqCounter s' = (AppsecReqCounter s)(labels := Suc (AppsecReqCounter s labels))
          \<and> metric_trace s' =
              metric_trace s @ [ReqCounterInc labels, InChanSend pr]
              @ (if InBandInterrupt (ResponseChannel_recv deps pr) then [BlockCounterInc labels]
                 else [])
          \<and> AppsecBlockCounter s' =
              (if InBandInterrupt (ResponseChannel_recv deps pr)
               then (AppsecBlockCounter s)(labels := Suc (AppsecBlockCounter s labels))
               else AppsecBlockCounter s))
       \<and> (fst (appsecHandler_auth deps s r) \<noteq> None
          \<or> (\<exists>err. NewParsedRequestFromRequest deps r = Inl err) \<longrightarrow>
            AppsecReqCounter s' = AppsecReqCounter s
          \<and> AppsecBlockCounter s' = AppsecBlockCounter s
          \<and> metric_trace s' = metric_trace s)"
proof (intro conjI impI)
  let ?a = "snd (appsecHandler_auth deps s r)"
  assume "fst (appsecHandler_auth deps s r) = None
          \<and> NewParsedRequestFromRequest deps r = Inr parsed"
  then have pass: "fst (appsecHandler_auth deps s r) = None"
    and parse: "NewParsedRequestFromRequest deps r = Inr parsed"
    by simp_all
  have l: "labels = (RemoteAddrNormalized parsed, Name (config (source ?a)))"
    and p: "pr = parsed\<lparr>AppsecEngine := Name (config (source ?a))\<rparr>"
    by (simp_all add: labels pr auth_keeps)
  note pc = process_counters [OF parse l p]
  show "AppsecReqCounter s' = (AppsecReqCounter s)(labels := Suc (AppsecReqCounter s labels))"
    unfolding s' handler_after_auth(1) [OF pass] pc(1) by (simp add: auth_keeps)
  show "metric_trace s' =
      metric_trace s @ [ReqCounterInc labels, InChanSend pr]
      @ (if InBandInterrupt (ResponseChannel_recv deps pr) then [BlockCounterInc labels] else [])"
    unfolding s' handler_after_auth(1) [OF pass] pc(3) by (simp add: auth_keeps)
  show "AppsecBlockCounter s' =
      (if InBandInterrupt (ResponseChannel_recv deps pr)
       then (AppsecBlockCounter s)(labels := Suc (AppsecBlockCounter s labels))
       else AppsecBlockCounter s)"
    unfolding s' handler_after_auth(1) [OF pass] pc(2) by (simp add: auth_keeps)
next
  assume no: "fst (appsecHandler_auth deps s r) \<noteq> None
          \<or> (\<exists>err. NewParsedRequestFromRequest deps r = Inl err)"
  have "AppsecReqCounter s' = AppsecReqCounter s
      \<and> AppsecBlockCounter s' = AppsecBlockCounter s
      \<and> metric_trace s' = metric_trace s"
  proof (cases "fst (appsecHandler_auth deps s r) = None")
    case False
    show ?thesis
      unfolding s' handler_after_auth(2) [OF False] by (simp add: auth_keeps)
  next
    case True
    with no obtain err where "NewParsedRequestFromRequest deps r = Inl err" by blast
    note pu = process_unparsed [OF this]
    show ?thesis
      unfolding s' handler_after_auth(1) [OF True] pu by (simp add: auth_keeps)
  qed
  then show "AppsecReqCounter s' = AppsecReqCounter s"
    and "AppsecBlockCounter s' = AppsecBlockCounter s"
    and "metric_trace s' = metric_trace s"
    by simp_all
qed

lemma handler_enqueued:
  "enqueued (snd (appsecHandler deps s r)) = enqueued s
   \<or> (\<exists>parsed. enqueued (snd (appsecHandler deps s r)) =
         enqueued s @ [parsed\<lparr>AppsecEngine := Name (config (source s))\<rparr>])"
proof (cases "fst (appsecHandler_auth deps s r) = None")
  case False
  show ?thesis
    unfolding handler_after_auth(2) [OF False] by (simp add: auth_keeps)
next
  case True
  show ?thesis
  proof (cases "NewParsedRequestFromRequest deps r")
    case (Inl err)
    show ?thesis
      unfolding handler_after_auth(1) [OF True] process_unparsed [OF Inl]
      by (simp add: auth_keeps)
  next
    case (Inr parsed)
    have "enqueued (snd (appsecHandler deps s r)) =
         enqueued s @ [parsed\<lparr>AppsecEngine := Name (config (source s))\<rparr>]"
      unfolding handler_after_auth(1) [OF True] process_counters(4) [OF Inr refl refl]
      by (simp add: auth_keeps)
    then show ?thesis by blast
  qed
qed

lemma auth_clock:
  "clock (snd (appsecHandler_auth deps s r)) = clock s"
proof -
  define K where "K = Header_Get (Header r) (APIKeyHeaderName deps)"
  show ?thesis
  proof (cases rule: key_cases [where K = K and s = s])
    case no_key
    then have "Header_Get (Header r) (APIKeyHeaderName deps) = []" by (simp add: K_def)
    then show ?thesis by (simp add: auth_no_key world_fields)
  next
    case (fresh E)
    show ?thesis
      unfolding auth_fresh [OF K_def [symmetric] fresh] by (simp add: world_fields)
  next
    case stale
    show ?thesis
      unfolding auth_stale [OF K_def [symmetric] stale] Let_def
      by (simp add: world_fields before_probe_fields split: option.splits)
  qed
qed

lemma handler_clock: "clock (snd (appsecHandler deps s r)) = clock s"
proof (cases "fst (appsecHandler_auth deps s r) = None")
  case True
  show ?thesis
    unfolding handler_after_auth(1) [OF True] by (simp add: process_preserves auth_clock)
next
  case False
  show ?thesis
    unfolding handler_after_auth(2) [OF False] by (rule auth_clock)
qed

lemma handler_stored_ticks:
  assumes "Header_Get (Header r) (APIKeyHeaderName deps) = K" "K \<noteq> []"
    and "APIKeys (AuthCache (source s)) K = None
         \<or> (\<exists>E. APIKeys (AuthCache (source s)) K = Some E \<and> E < clock s (ticks s))"
    and "IsAuth deps (source s) K"
    and "AuthCacheDuration (config (source s)) = Some d"
  shows "ticks (snd (appsecHandler deps s r)) =
           Suc (if APIKeys (AuthCache (source s)) K = None then ticks s else Suc (ticks s))"
  unfolding handler_stored [OF assms]
  by (simp add: process_preserves world_fields before_probe_fields split: option.splits)

section \<open>The engine name\<close>

text \<open>
  Claim C9. When the configuration sets both \<^verbatim>\<open>listen_socket\<close> and \<^verbatim>\<open>listen_addr\<close>
  and gives no name, a successful \<^verbatim>\<open>UnmarshalConfig\<close> leaves the name empty: neither
  naming branch applies. A source that serves with this name stamps every request it
  hands to a runner with the empty engine name: a run of the handler hands over nothing,
  or one request whose \<^verbatim>\<open>AppsecEngine\<close> is empty.
\<close>

theorem both_listeners_leave_name_empty:
  assumes dec: "yaml_UnmarshalStrict cdeps y (config w) = (None, c)"
    and both: "ListenSocket c \<noteq> []" "ListenAddr c \<noteq> []"
    and unnamed: "Name c = []"
    and ok: "UnmarshalConfig cdeps y w = (None, w')"
    and serving: "Name (config (source s)) = Name (config w')"
  shows "Name (config w') = []
       \<and> (enqueued (snd (appsecHandler deps s r)) = enqueued s
          \<or> (\<exists>parsed. enqueued (snd (appsecHandler deps s r))
                        = enqueued s @ [parsed\<lparr>AppsecEngine := []\<rparr>]))"
proof -
  from ok have "fst (UnmarshalConfig cdeps y w) = None" by simp
  then have set: "\<not> (AppsecConfig c = [] \<and> AppsecConfigPath c = [])"
    unfolding UnmarshalConfig_error [OF dec] by (simp split: if_splits)
  from ok have "config w' = config (snd (UnmarshalConfig cdeps y w))" by simp
  then have "Name (config w') = Name (default_Name (default_Routines
      (default_Mode (TAIL_MODE cdeps) (leading_slash (default_Path (default_ListenAddr c))))))"
    by (simp only: UnmarshalConfig_config [OF dec set])
  also have "\<dots> = []"
    unfolding config_fields using both unnamed by simp
  finally have name: "Name (config w') = []" .
  with serving have "Name (config (source s)) = []" by simp
  with handler_enqueued [of deps s r] name show ?thesis by simp
qed

section \<open>Bulk deletion of decisions\<close>

lemma Chunks_full_head:
  assumes "0 < n" "n \<le> length items"
  shows "\<exists>rest. Chunks items n = take n items # rest"
proof -
  from assms have "items \<noteq> []" by auto
  with assms(1) have "Chunks items n = take n items # Chunks (drop n items) n"
    by (subst Chunks.simps) simp
  then show ?thesis by blast
qed

text \<open>The chunks of a list of exactly the size: the list itself, once.\<close>

lemma Chunks_exact:
  assumes "0 < n" "length items = n"
  shows "Chunks items n = [items]"
proof -
  from assms have ne: "items \<noteq> []" by auto
  with assms(1) have "Chunks items n = take n items # Chunks (drop n items) n"
    by (subst Chunks.simps) simp
  moreover from assms(1) have "Chunks (drop n items) n = (if drop n items = [] then [] else
      take n (drop n items) # Chunks (drop n (drop n items)) n)"
    by (subst Chunks.simps) simp
  ultimately show ?thesis using assms(2) by simp
qed

lemma range_chunks_first_stuck:
  "call db chunk = None \<Longrightarrow> range_chunks call db (chunk # rest) tot = None"
  by simp

lemma DeleteDecisions_stuck:
  "decisionDeleteBulkSize \<le> length decisions \<Longrightarrow> DeleteDecisions depth exec db decisions = None"
proof (induction depth arbitrary: db decisions)
  case 0
  show ?case by simp
next
  case (Suc depth)
  have pos: "0 < decisionDeleteBulkSize" by (simp add: decisionDeleteBulkSize_def)
  from Chunks_full_head [OF pos Suc.prems]
  obtain rest where ch: "Chunks decisions decisionDeleteBulkSize
      = take decisionDeleteBulkSize decisions # rest"
    by blast
  from Suc.prems have "decisionDeleteBulkSize \<le> length (take decisionDeleteBulkSize decisions)"
    by simp
  then have "DeleteDecisions depth exec db (take decisionDeleteBulkSize decisions) = None"
    by (rule Suc.IH)
  then have "range_chunks (DeleteDecisions depth exec) db
      (take decisionDeleteBulkSize decisions # rest) 0 = None"
    by (rule range_chunks_first_stuck)
  with Suc.prems ch show ?case by simp
qed

lemma DeleteDecisions_small:
  "length decisions < decisionDeleteBulkSize \<Longrightarrow>
   DeleteDecisions (Suc depth) exec db decisions =
     Some (case exec db (decisionIDs decisions) of
             (Inl err, db') \<Rightarrow>
               ((0, Some (Wrap ''hard delete decisions with provided filter'' err)), db')
           | (Inr rows, db') \<Rightarrow> ((rows, None), db'))"
  by (simp split: prod.splits sum.splits)

text \<open>
  Claim C10 says that \<^verbatim>\<open>DeleteDecisions\<close> returns for every list. The code does so
  only below the bulk size. With \<open>decisionDeleteBulkSize\<close> decisions or more the test
  \<^verbatim>\<open>len(decisions) < decisionDeleteBulkSize\<close> fails, the first chunk has exactly
  \<open>decisionDeleteBulkSize\<close> decisions, and the call on it fails the same test again: no
  depth of calls is enough for a result. (\<^verbatim>\<open>ExpireDecisions\<close>, written the same way,
  tests with \<^verbatim>\<open><=\<close> and stops.) Below the bulk size one call returns what the
  delete statement returns: its number of rows, or 0 with its error wrapped.
\<close>

theorem DeleteDecisions_returns_only_below_bulk_size:
  "(decisionDeleteBulkSize \<le> length decisions \<longrightarrow>
      DeleteDecisions depth exec db decisions = None)
   \<and> (length decisions < decisionDeleteBulkSize \<longrightarrow>
      DeleteDecisions (Suc depth) exec db decisions =
        Some (case exec db (decisionIDs decisions) of
                (Inl err, db') \<Rightarrow>
                  ((0, Some (Wrap ''hard delete decisions with provided filter'' err)), db')
              | (Inr rows, db') \<Rightarrow> ((rows, None), db')))"
proof (intro conjI impI)
  assume "decisionDeleteBulkSize \<le> length decisions"
  then show "DeleteDecisions depth exec db decisions = None"
    by (rule DeleteDecisions_stuck)
next
  assume "length decisions < decisionDeleteBulkSize"
  then show "DeleteDecisions (Suc depth) exec db decisions =
        Some (case exec db (decisionIDs decisions) of
                (Inl err, db') \<Rightarrow>
                  ((0, Some (Wrap ''hard delete decisions with provided filter'' err)), db')
              | (Inr rows, db') \<Rightarrow> ((rows, None), db'))"
    by (rule DeleteDecisions_small)
qed

section \<open>The theorems at concrete inputs\<close>

text \<open>The concrete inputs, field by field.\<close>

lemma example_world_fields:
  "APIKeys (AuthCache (source (example_world name keys))) = keys"
  "AuthCacheDuration (config (source (example_world name keys))) = Some 60"
  "Name (config (source (example_world name keys))) = name"
  "clock (example_world name keys) = (\<lambda>n. 100 + int n)"
  "ticks (example_world name keys) = 0"
  by (simp_all add: example_world_def zero_config_def)

lemma example_deps_fields:
  "APIKeyHeaderName (example_deps status interrupt) = ''X-Crowdsec-Appsec-Api-Key''"
  "NewParsedRequestFromRequest (example_deps status interrupt) r =
     Inr \<lparr>UUID = ''u1'', ClientIP = ''192.0.2.7'', RemoteAddrNormalized = RemoteAddr r,
          AppsecEngine = []\<rparr>"
  "ResponseChannel_recv (example_deps status interrupt) p = \<lparr>InBandInterrupt = interrupt\<rparr>"
  by (simp_all add: example_deps_def)

lemma example_IsAuth: "IsAuth (example_deps status interrupt) w k \<longleftrightarrow> status = 200"
  by (simp add: IsAuth_def http_NewRequest_def example_deps_def StatusOK_def)

lemma request_k1_key:
  "Header_Get (Header request_k1) (APIKeyHeaderName (example_deps status interrupt)) = ''k1''"
  by (simp add: example_deps_fields request_k1_def request_with_def Header_Get_def)

lemma request_without_key:
  "Header (request_with Map.empty) (APIKeyHeaderName (example_deps status interrupt)) = None"
  by (simp add: request_with_def)

lemma parse_k1:
  "NewParsedRequestFromRequest (example_deps status interrupt) request_k1 = Inr parsed_k1"
  by (simp add: example_deps_fields request_k1_def request_with_def parsed_k1_def)

lemma example_world_counters:
  "AppsecReqCounter (example_world name keys) = (\<lambda>labels. 0)"
  "AppsecBlockCounter (example_world name keys) = (\<lambda>labels. 0)"
  "metric_trace (example_world name keys) = []"
  "enqueued (example_world name keys) = []"
  by (simp_all add: example_world_def metric_trace_def enqueued_def)

text \<open>
  The theorem of claim C1: a cached key \<open>k1\<close> that expires at 500 is served at time 100
  though the upstream would answer 401; with an empty cache and an upstream answering
  200, \<open>k1\<close> is stored until 160 and two more requests do not call the probe.
\<close>

theorem cached_key_is_not_probed_witness:
  "probe_calls (snd (appsecHandler (example_deps 401 False)
       (example_world ''engine'' [''k1'' \<mapsto> 500]) request_k1))
     = probe_calls (example_world ''engine'' [''k1'' \<mapsto> 500])
   \<and> APIKeys (AuthCache (source (snd (appsecHandler (example_deps 200 False)
         (example_world ''engine'' Map.empty) request_k1)))) ''k1'' = Some 160
   \<and> probe_calls (serve (example_deps 200 False)
         (snd (appsecHandler (example_deps 200 False)
            (example_world ''engine'' Map.empty) request_k1))
         [request_k1, request_k1])
     = probe_calls (example_world ''engine'' Map.empty) @ [''k1'']"
proof -
  have ne: "''k1'' \<noteq> []" by simp
  define s where "s = example_world ''engine'' [''k1'' \<mapsto> 500]"
  define s0 where "s0 = example_world ''engine'' Map.empty"
  define D where "D = example_deps 200 False"
  define s1 where "s1 = snd (appsecHandler D s0 request_k1)"
  have hit: "APIKeys (AuthCache (source s)) ''k1'' = Some 500 \<and> clock s (ticks s) \<le> 500"
    by (simp add: s_def example_world_fields)
  have absent: "APIKeys (AuthCache (source s0)) ''k1'' = None"
    by (simp add: s0_def example_world_fields)
  have stale: "APIKeys (AuthCache (source s0)) ''k1'' = None
      \<or> (\<exists>E. APIKeys (AuthCache (source s0)) ''k1'' = Some E \<and> E < clock s0 (ticks s0))"
    using absent by simp
  have ok: "IsAuth D (source s0) ''k1''"
    by (simp add: D_def example_IsAuth)
  have dur: "AuthCacheDuration (config (source s0)) = Some 60"
    by (simp add: s0_def example_world_fields)
  have now: "clock s0 (if APIKeys (AuthCache (source s0)) ''k1'' = None then ticks s0
                       else Suc (ticks s0)) = 100"
    by (simp add: absent) (simp add: s0_def example_world_fields)
  have key: "Header_Get (Header request_k1) (APIKeyHeaderName D) = ''k1''"
    unfolding D_def by (rule request_k1_key)
  have t1: "ticks s1 = 1"
    unfolding s1_def handler_stored_ticks [OF key ne stale ok dur]
    by (simp add: absent) (simp add: s0_def example_world_fields)
  have c1: "clock s1 = (\<lambda>n. 100 + int n)"
    unfolding s1_def handler_clock by (simp add: s0_def example_world_fields)
  have keys: "list_all (\<lambda>r'. Header_Get (Header r') (APIKeyHeaderName D) = ''k1'')
      [request_k1, request_k1]"
    by (simp add: key)
  have within: "\<forall>i<length [request_k1, request_k1]. clock s1 (ticks s1 + i) \<le> 100 + 60"
    by (simp add: t1 c1)
  note A = cached_key_is_not_probed [OF request_k1_key [of 401 False] ne, where s = s]
  note B = cached_key_is_not_probed [OF key ne, where s = s0]
  from A hit have 1: "probe_calls (snd (appsecHandler (example_deps 401 False) s request_k1))
      = probe_calls s"
    by blast
  from B stale ok dur now
  have 2: "APIKeys (AuthCache (source s1)) ''k1'' = Some (100 + 60)"
    unfolding s1_def by metis
  from B stale ok dur now keys within
  have 3: "probe_calls (serve D s1 [request_k1, request_k1]) = probe_calls s0 @ [''k1'']"
    unfolding s1_def by metis
  from 1 2 3 show ?thesis
    unfolding s_def s0_def D_def s1_def by simp
qed

text \<open>
  The theorem of claim C2: an upstream answering 403, an empty cache; the second request
  finds an upstream answering 200 and calls the probe again.
\<close>

theorem failed_probe_is_not_cached_witness:
  "fst (appsecHandler (example_deps 403 False) (example_world ''engine'' Map.empty) request_k1)
     = Returned
   \<and> trace (snd (appsecHandler (example_deps 403 False) (example_world ''engine'' Map.empty)
         request_k1))
     = trace (example_world ''engine'' Map.empty)
       @ [CacheGet ''k1'', IsAuthCall ''k1'', WriteHeader 401]
   \<and> source (snd (appsecHandler (example_deps 403 False) (example_world ''engine'' Map.empty)
         request_k1))
     = source (example_world ''engine'' Map.empty)
   \<and> probe_calls (snd (appsecHandler (example_deps 200 False)
         (snd (appsecHandler (example_deps 403 False) (example_world ''engine'' Map.empty)
            request_k1))
         request_k1))
     = probe_calls (example_world ''engine'' Map.empty) @ [''k1'', ''k1'']"
proof -
  have ne: "''k1'' \<noteq> []" by simp
  define s where "s = example_world ''engine'' Map.empty"
  define s1 where "s1 = snd (appsecHandler (example_deps 403 False) s request_k1)"
  have absent: "APIKeys (AuthCache (source s)) ''k1'' = None"
    by (simp add: s_def example_world_fields)
  then have stale: "APIKeys (AuthCache (source s)) ''k1'' = None
      \<or> (\<exists>E. APIKeys (AuthCache (source s)) ''k1'' = Some E \<and> E < clock s (ticks s))"
    by simp
  have rejected: "\<not> IsAuth (example_deps 403 False) (source s) ''k1''"
    by (simp add: example_IsAuth)
  note T = failed_probe_is_not_cached
             [OF request_k1_key [of 403 False] ne stale rejected s1_def]
  from T have same: "source s1 = source s" by blast
  have again: "Header_Get (Header request_k1) (APIKeyHeaderName (example_deps 200 False)) = ''k1''
      \<and> (APIKeys (AuthCache (source s1)) ''k1'' = None
         \<or> (\<exists>E. APIKeys (AuthCache (source s1)) ''k1'' = Some E \<and> E < clock s1 (ticks s1)))"
    by (simp add: request_k1_key same absent)
  from T again
  have "probe_calls (snd (appsecHandler (example_deps 200 False) s1 request_k1))
      = probe_calls s @ [''k1'', ''k1'']"
    by blast
  with T show ?thesis
    unfolding s1_def s_def by blast
qed

text \<open>The theorem of claim C3 at a request without headers.\<close>

theorem missing_key_is_unauthorized_witness:
  "appsecHandler (example_deps 200 False) (example_world ''engine'' [''k1'' \<mapsto> 500])
       (request_with Map.empty)
     = (Returned,
        (example_world ''engine'' [''k1'' \<mapsto> 500])
          \<lparr>trace := trace (example_world ''engine'' [''k1'' \<mapsto> 500]) @ [WriteHeader 401]\<rparr>)
   \<and> probe_calls (snd (appsecHandler (example_deps 200 False)
         (example_world ''engine'' [''k1'' \<mapsto> 500]) (request_with Map.empty)))
     = probe_calls (example_world ''engine'' [''k1'' \<mapsto> 500])
   \<and> source (snd (appsecHandler (example_deps 200 False)
         (example_world ''engine'' [''k1'' \<mapsto> 500]) (request_with Map.empty)))
     = source (example_world ''engine'' [''k1'' \<mapsto> 500])
   \<and> enqueued (snd (appsecHandler (example_deps 200 False)
         (example_world ''engine'' [''k1'' \<mapsto> 500]) (request_with Map.empty)))
     = enqueued (example_world ''engine'' [''k1'' \<mapsto> 500])"
proof -
  have missing: "Header (request_with Map.empty) (APIKeyHeaderName (example_deps 200 False)) = None
      \<or> Header_Get (Header (request_with Map.empty)) (APIKeyHeaderName (example_deps 200 False)) = []"
    by (simp add: request_without_key)
  show ?thesis
    by (rule missing_key_is_unauthorized [OF missing])
qed

text \<open>
  The theorem of claim C8: a request that passes, with a verdict that interrupts, and a
  request that the upstream rejects.
\<close>

theorem handler_counts_requests_and_blocks_witness:
  "AppsecReqCounter (snd (appsecHandler (example_deps 200 True)
       (example_world ''engine'' Map.empty) request_k1)) (''10.0.0.1'', ''engine'') = 1
   \<and> metric_trace (snd (appsecHandler (example_deps 200 True)
       (example_world ''engine'' Map.empty) request_k1))
     = [ReqCounterInc (''10.0.0.1'', ''engine''),
        InChanSend (parsed_k1\<lparr>AppsecEngine := ''engine''\<rparr>),
        BlockCounterInc (''10.0.0.1'', ''engine'')]
   \<and> AppsecBlockCounter (snd (appsecHandler (example_deps 200 True)
       (example_world ''engine'' Map.empty) request_k1)) (''10.0.0.1'', ''engine'') = 1
   \<and> AppsecReqCounter (snd (appsecHandler (example_deps 403 True)
       (example_world ''engine'' Map.empty) request_k1))
     = AppsecReqCounter (example_world ''engine'' Map.empty)
   \<and> metric_trace (snd (appsecHandler (example_deps 403 True)
       (example_world ''engine'' Map.empty) request_k1))
     = metric_trace (example_world ''engine'' Map.empty)"
proof -
  define s where "s = example_world ''engine'' Map.empty"
  define labels where "labels = (''10.0.0.1'', ''engine'')"
  define pr where "pr = parsed_k1\<lparr>AppsecEngine := ''engine''\<rparr>"
  have l: "labels = (RemoteAddrNormalized parsed_k1, Name (config (source s)))"
    by (simp add: labels_def s_def example_world_fields parsed_k1_def)
  have p: "pr = parsed_k1\<lparr>AppsecEngine := Name (config (source s))\<rparr>"
    by (simp add: pr_def s_def example_world_fields)
  have pass: "fst (appsecHandler_auth (example_deps 200 True) s request_k1) = None
      \<and> NewParsedRequestFromRequest (example_deps 200 True) request_k1 = Inr parsed_k1"
    by (simp add: auth_passes_iff request_k1_key example_IsAuth s_def example_world_fields
        parse_k1)
  have stop: "fst (appsecHandler_auth (example_deps 403 True) s request_k1) \<noteq> None
      \<or> (\<exists>err. NewParsedRequestFromRequest (example_deps 403 True) request_k1 = Inl err)"
    by (simp add: auth_passes_iff request_k1_key example_IsAuth s_def example_world_fields)
  have v: "InBandInterrupt (ResponseChannel_recv (example_deps 200 True) pr)"
    by (simp add: example_deps_fields)
  note A = handler_counts_requests_and_blocks [OF l p refl, of "example_deps 200 True" request_k1]
  note B = handler_counts_requests_and_blocks [OF l p refl, of "example_deps 403 True" request_k1]
  from A pass v
  have a: "AppsecReqCounter (snd (appsecHandler (example_deps 200 True) s request_k1))
             = (AppsecReqCounter s)(labels := Suc (AppsecReqCounter s labels))"
    and b: "metric_trace (snd (appsecHandler (example_deps 200 True) s request_k1))
             = metric_trace s @ [ReqCounterInc labels, InChanSend pr] @ [BlockCounterInc labels]"
    and c: "AppsecBlockCounter (snd (appsecHandler (example_deps 200 True) s request_k1))
             = (AppsecBlockCounter s)(labels := Suc (AppsecBlockCounter s labels))"
    by simp_all
  from B stop
  have d: "AppsecReqCounter (snd (appsecHandler (example_deps 403 True) s request_k1))
             = AppsecReqCounter s"
    and e: "metric_trace (snd (appsecHandler (example_deps 403 True) s request_k1))
             = metric_trace s"
    by blast+
  from a b c d e show ?thesis
    unfolding s_def labels_def pr_def by (simp add: example_world_counters)
qed

text \<open>The theorem of claim C9 at a configuration with a socket and an address.\<close>

theorem both_listeners_leave_name_empty_witness:
  "Name (config (snd (UnmarshalConfig (decoding_to both_listeners) [] zero_source))) = []
   \<and> (enqueued (snd (appsecHandler (example_deps 200 False) (example_world [] Map.empty)
          request_k1))
       = enqueued (example_world [] Map.empty)
      \<or> (\<exists>parsed. enqueued (snd (appsecHandler (example_deps 200 False)
                      (example_world [] Map.empty) request_k1))
           = enqueued (example_world [] Map.empty) @ [parsed\<lparr>AppsecEngine := []\<rparr>]))"
proof -
  define res where "res = UnmarshalConfig (decoding_to both_listeners) [] zero_source"
  have dec: "yaml_UnmarshalStrict (decoding_to both_listeners) [] (config zero_source)
      = (None, both_listeners)"
    by (rule decoding_to_decodes)
  have f: "ListenSocket both_listeners \<noteq> []" "ListenAddr both_listeners \<noteq> []"
    "Name both_listeners = []" "AppsecConfig both_listeners \<noteq> []"
    by (simp_all add: both_listeners_def zero_config_def)
  have "fst res = None"
    unfolding res_def UnmarshalConfig_error [OF dec] using f(4) by simp
  then have ok: "UnmarshalConfig (decoding_to both_listeners) [] zero_source = (None, snd res)"
    unfolding res_def by (metis prod.collapse)
  have set: "\<not> (AppsecConfig both_listeners = [] \<and> AppsecConfigPath both_listeners = [])"
    using f(4) by simp
  have "Name (config (snd res)) = []"
    unfolding res_def UnmarshalConfig_config [OF dec set] config_fields
    using f by simp
  then have serving: "Name (config (source (example_world [] Map.empty)))
      = Name (config (snd res))"
    by (simp add: example_world_fields)
  show ?thesis
    using both_listeners_leave_name_empty [OF dec f(1) f(2) f(3) ok serving]
    unfolding res_def by simp
qed

text \<open>
  The theorem of claim C10 at 256 decisions, for every depth, and at two decisions, with
  a database that deletes every identifier it is given.
\<close>

theorem DeleteDecisions_returns_only_below_bulk_size_witness:
  "(\<forall>depth. DeleteDecisions depth (\<lambda>db ids. (Inr (int (length ids)), db)) ()
              (replicate 256 \<lparr>ID = 1\<rparr>) = None)
   \<and> DeleteDecisions (Suc 0) (\<lambda>db ids. (Inr (int (length ids)), db)) ()
        [\<lparr>ID = 1\<rparr>, \<lparr>ID = 2\<rparr>] = Some ((2, None), ())"
proof (intro conjI allI)
  fix depth
  have "decisionDeleteBulkSize \<le> length (replicate 256 \<lparr>ID = 1\<rparr>)"
    by (simp add: decisionDeleteBulkSize_def)
  with DeleteDecisions_returns_only_below_bulk_size
         [of "replicate 256 \<lparr>ID = 1\<rparr>" depth "\<lambda>db ids. (Inr (int (length ids)), db)" "()"]
  show "DeleteDecisions depth (\<lambda>db ids. (Inr (int (length ids)), db)) ()
             (replicate 256 \<lparr>ID = 1\<rparr>) = None"
    by blast
next
  have "length [\<lparr>ID = 1\<rparr>, \<lparr>ID = 2\<rparr>] < decisionDeleteBulkSize"
    by (simp add: decisionDeleteBulkSize_def)
  with DeleteDecisions_returns_only_below_bulk_size
         [of "[\<lparr>ID = 1\<rparr>, \<lparr>ID = 2\<rparr>]" 0 "\<lambda>db ids. (Inr (int (length ids)), db)" "()"]
  show "DeleteDecisions (Suc 0) (\<lambda>db ids. (Inr (int (length ids)), db)) ()
        [\<lparr>ID = 1\<rparr>, \<lparr>ID = 2\<rparr>] = Some ((2, None), ())"
    by (simp add: decisionIDs_def)
qed

end
